theory Spec2Isabelle
  imports Complex_Main
begin

section \<open>JavaScript values\<close>

text \<open>
  A JavaScript string is a sequence of UTF-16 code units. The source's string literals are
  written with \<open>str\<close>, which maps every character of an ASCII literal to its code unit.
\<close>

type_synonym ustr = "nat list"

definition str :: "string \<Rightarrow> ustr" where
  "str s = map of_char s"

text \<open>
  The values \<open>response.json()\<close> can resolve to. A number carries the exact value of its
  double; \<open>undefined\<close> (a missing property) is \<open>None\<close> in a \<open>jsval option\<close>. An object
  is the list of its own properties.
\<close>

datatype jsval =
    JNull
  | JBool bool
  | JNum rat
  | JStr ustr
  | JArr "jsval list"
  | JObj "(ustr \<times> jsval) list"

text \<open>ToBoolean: \<open>null\<close>, \<open>false\<close>, \<open>0\<close> and the empty string are falsy.\<close>

fun truthy :: "jsval \<Rightarrow> bool" where
  "truthy JNull = False"
| "truthy (JBool b) = b"
| "truthy (JNum q) = (q \<noteq> 0)"
| "truthy (JStr s) = (s \<noteq> [])"
| "truthy (JArr xs) = True"
| "truthy (JObj kvs) = True"

text \<open>
  \<open>v?.name\<close> for a property name that no prototype defines (\<open>groupId\<close>, \<open>title\<close>,
  \<open>error\<close>): the own property of an object, \<open>undefined\<close> for everything else.
\<close>

fun get_prop :: "jsval \<Rightarrow> ustr \<Rightarrow> jsval option" where
  "get_prop (JObj kvs) k = map_of kvs k"
| "get_prop v k = None"

fun join_with :: "ustr \<Rightarrow> ustr list \<Rightarrow> ustr" where
  "join_with sep [] = []"
| "join_with sep [x] = x"
| "join_with sep (x # y # ys) = x @ sep @ join_with sep (y # ys)"

text \<open>
  ToString, as a template literal applies it. Formatting a number is the host's
  (\<open>Number::toString\<close>) and is a parameter.
\<close>

fun js_to_string :: "(rat \<Rightarrow> ustr) \<Rightarrow> jsval \<Rightarrow> ustr" where
  "js_to_string f JNull = str ''null''"
| "js_to_string f (JBool b) = (if b then str ''true'' else str ''false'')"
| "js_to_string f (JNum q) = f q"
| "js_to_string f (JStr s) = s"
| "js_to_string f (JArr xs) =
     join_with (str '','') (map (\<lambda>x. if x = JNull then [] else js_to_string f x) xs)"
| "js_to_string f (JObj kvs) = str ''[object Object]''"

fun digit_of :: "nat \<Rightarrow> nat" where
  "digit_of d = 48 + d"

fun show_nat_fuel :: "nat \<Rightarrow> nat \<Rightarrow> ustr" where
  "show_nat_fuel 0 n = [digit_of (n mod 10)]"
| "show_nat_fuel (Suc k) n =
     (if n < 10 then [digit_of n] else show_nat_fuel k (n div 10) @ [digit_of (n mod 10)])"

text \<open>Decimal digits of a natural number (\<open>response.status\<close> in a template literal).\<close>

definition show_nat :: "nat \<Rightarrow> ustr" where
  "show_nat n = show_nat_fuel n n"

section \<open>Regular expressions\<close>

text \<open>
  The constructs the source's regular expressions use: \<open>^\<close>, literal text (also under the
  \<open>i\<close> flag), a character class under \<open>*\<close> or \<open>+\<close>, \<open>?\<close>, sequencing and capture groups.
  \<open>rx_run\<close> is the backtracking matcher: from a state (captures, position, remaining
  input) it returns every way to match, in the order the backtracking tries them
  (greedy first).
\<close>

datatype rx =
    Bol
  | Lit ustr
  | LitCI ustr
  | Star "nat \<Rightarrow> bool"
  | Plus "nat \<Rightarrow> bool"
  | Opt rx
  | Seq rx rx
  | Grp nat rx

type_synonym mstate = "(nat \<rightharpoonup> ustr) \<times> nat \<times> ustr"

definition is_lower :: "nat \<Rightarrow> bool" where
  "is_lower c = (97 \<le> c \<and> c \<le> 122)"

text \<open>
  Canonicalize of the \<open>i\<close> flag without the \<open>u\<close> flag: a code unit below 128 is upper-cased;
  a code unit from 128 on never canonicalizes to one below 128, so it stays apart from
  every ASCII pattern character.
\<close>

definition ci_eq :: "nat \<Rightarrow> nat \<Rightarrow> bool" where
  "ci_eq a b = ((if is_lower a then a - 32 else a) = (if is_lower b then b - 32 else b))"

fun rx_run :: "rx \<Rightarrow> mstate \<Rightarrow> mstate list" where
  "rx_run Bol (c, p, r) = (if p = 0 then [(c, p, r)] else [])"
| "rx_run (Lit s) (c, p, r) =
     (if take (length s) r = s then [(c, p + length s, drop (length s) r)] else [])"
| "rx_run (LitCI s) (c, p, r) =
     (if list_all2 ci_eq s (take (length s) r)
      then [(c, p + length s, drop (length s) r)] else [])"
| "rx_run (Star P) (c, p, r) =
     map (\<lambda>k. (c, p + k, drop k r)) (rev [0..<Suc (length (takeWhile P r))])"
| "rx_run (Plus P) (c, p, r) =
     map (\<lambda>k. (c, p + k, drop k r)) (rev [1..<Suc (length (takeWhile P r))])"
| "rx_run (Opt a) s = rx_run a s @ [s]"
| "rx_run (Seq a b) s = concat (map (rx_run b) (rx_run a s))"
| "rx_run (Grp n a) (c, p, r) =
     map (\<lambda>(c', p', r'). (c'(n \<mapsto> take (p' - p) r), p', r')) (rx_run a (c, p, r))"

fun seqs :: "rx list \<Rightarrow> rx" where
  "seqs [] = Lit []"
| "seqs [a] = a"
| "seqs (a # b # bs) = Seq a (seqs (b # bs))"

text \<open>
  \<open>String.prototype.match\<close> with a regular expression without the \<open>g\<close> flag: the match at
  the leftmost start position that has one, as the array of the whole match (index 0) and
  the capture groups; \<open>null\<close> is \<open>None\<close>.
\<close>

fun exec_from :: "rx \<Rightarrow> nat \<Rightarrow> ustr \<Rightarrow> (nat \<rightharpoonup> ustr) option" where
  "exec_from re p [] =
     (case rx_run re (Map.empty, p, []) of
        [] \<Rightarrow> None
      | (c, p', r') # _ \<Rightarrow> Some (c(0 \<mapsto> [])))"
| "exec_from re p (x # xs) =
     (case rx_run re (Map.empty, p, x # xs) of
        [] \<Rightarrow> exec_from re (Suc p) xs
      | (c, p', r') # _ \<Rightarrow> Some (c(0 \<mapsto> take (p' - p) (x # xs))))"

definition js_match :: "ustr \<Rightarrow> rx \<Rightarrow> (nat \<rightharpoonup> ustr) option" where
  "js_match s re = exec_from re 0 s"

text \<open>\<open>m && m[i]\<close> for a match result: the group took part and is not empty.\<close>

definition group_truthy :: "(nat \<rightharpoonup> ustr) option \<Rightarrow> nat \<Rightarrow> bool" where
  "group_truthy m i = (case m of None \<Rightarrow> False | Some c \<Rightarrow> (case c i of None \<Rightarrow> False | Some g \<Rightarrow> g \<noteq> []))"

definition match_group :: "(nat \<rightharpoonup> ustr) option \<Rightarrow> nat \<Rightarrow> ustr" where
  "match_group m i = (case m of None \<Rightarrow> [] | Some c \<Rightarrow> (case c i of None \<Rightarrow> [] | Some g \<Rightarrow> g))"

subsection \<open>Character classes\<close>

definition is_digit :: "nat \<Rightarrow> bool" where
  "is_digit c = (48 \<le> c \<and> c \<le> 57)"

text \<open>\<open>.\<close> matches everything but the line terminators.\<close>

definition is_dot :: "nat \<Rightarrow> bool" where
  "is_dot c = (c \<noteq> 10 \<and> c \<noteq> 13 \<and> c \<noteq> 8232 \<and> c \<noteq> 8233)"

text \<open>\<open>\s\<close>: white space and line terminators.\<close>

definition is_space :: "nat \<Rightarrow> bool" where
  "is_space c = (c \<in> {9, 10, 11, 12, 13, 32, 160, 5760, 8232, 8233, 8239, 8287, 12288, 65279}
                 \<or> (8192 \<le> c \<and> c \<le> 8202))"

subsection \<open>The source's regular expressions\<close>

text \<open>\<^verbatim>\<open>/^https?:\/\/(?:www\.)?wattpad\.com\/story\/(\d+)-.*/\<close>\<close>

definition wattpadStoryRegex :: rx where
  "wattpadStoryRegex =
     seqs [Bol, Lit (str ''http''), Opt (Lit (str ''s'')), Lit (str ''://''),
           Opt (Lit (str ''www.'')), Lit (str ''wattpad.com/story/''),
           Grp 1 (Plus is_digit), Lit (str ''-''), Star is_dot]"

text \<open>\<^verbatim>\<open>/^https?:\/\/(?:www\.)?wattpad\.com\/(\d+)/\<close>\<close>

definition wattpadStoryPartRegex :: rx where
  "wattpadStoryPartRegex =
     seqs [Bol, Lit (str ''http''), Opt (Lit (str ''s'')), Lit (str ''://''),
           Opt (Lit (str ''www.'')), Lit (str ''wattpad.com/''),
           Grp 1 (Plus is_digit)]"

text \<open>\<^verbatim>\<open>/^https?:\/\/(www\.)?wattpad\.com\/story\/(\d+)/\<close> (popup/App.tsx)\<close>

definition wattpadStoryRegex_App :: rx where
  "wattpadStoryRegex_App =
     seqs [Bol, Lit (str ''http''), Opt (Lit (str ''s'')), Lit (str ''://''),
           Opt (Grp 1 (Lit (str ''www.''))), Lit (str ''wattpad.com/story/''),
           Grp 2 (Plus is_digit)]"

text \<open>\<^verbatim>\<open>/filename\*\s*=\s*UTF-8''([^;]+)/i\<close>\<close>

definition utf8FilenameRegex :: rx where
  "utf8FilenameRegex =
     seqs [LitCI (str ''filename*''), Star is_space, LitCI (str ''=''), Star is_space,
           LitCI (str ''UTF-8'' @ [39, 39]), Grp 1 (Plus (\<lambda>c. c \<noteq> 59))]"

text \<open>\<^verbatim>\<open>/filename="?([^"]+)"?/\<close>\<close>

definition plainFilenameRegex :: rx where
  "plainFilenameRegex =
     seqs [Lit (str ''filename=''), Opt (Lit [34]), Grp 1 (Plus (\<lambda>c. c \<noteq> 34)),
           Opt (Lit [34])]"

section \<open>decodeURIComponent\<close>

fun hex_value :: "nat \<Rightarrow> nat option" where
  "hex_value c =
     (if 48 \<le> c \<and> c \<le> 57 then Some (c - 48)
      else if 65 \<le> c \<and> c \<le> 70 then Some (c - 55)
      else if 97 \<le> c \<and> c \<le> 102 then Some (c - 87)
      else None)"

fun hex_octet :: "nat \<Rightarrow> nat \<Rightarrow> nat option" where
  "hex_octet a b =
     (case hex_value a of
        None \<Rightarrow> None
      | Some x \<Rightarrow> (case hex_value b of None \<Rightarrow> None | Some y \<Rightarrow> Some (16 * x + y)))"

text \<open>The number of leading 1 bits of an octet (5 stands for "more than four").\<close>

fun leading_ones :: "nat \<Rightarrow> nat" where
  "leading_ones b =
     (if b < 128 then 0 else if b < 192 then 1 else if b < 224 then 2
      else if b < 240 then 3 else if b < 248 then 4 else 5)"

text \<open>The \<open>j\<close> escaped continuation octets \<open>%XX\<close> at the head of the input.\<close>

fun cont_octets :: "nat \<Rightarrow> ustr \<Rightarrow> nat list option" where
  "cont_octets 0 r = Some []"
| "cont_octets (Suc j) (p # a # b # r) =
     (if p = 37 then
        (case hex_octet a b of
           None \<Rightarrow> None
         | Some o1 \<Rightarrow> (case cont_octets j r of None \<Rightarrow> None | Some os \<Rightarrow> Some (o1 # os)))
      else None)"
| "cont_octets (Suc j) r = None"

definition is_cont :: "nat \<Rightarrow> bool" where
  "is_cont b = (128 \<le> b \<and> b < 192)"

text \<open>
  The code point of a well-formed UTF-8 sequence of two to four octets: continuation
  octets in range, no overlong form, no surrogate, at most U+10FFFF.
\<close>

fun utf8_code_point :: "nat list \<Rightarrow> nat option" where
  "utf8_code_point [b0, b1] =
     (let v = (b0 mod 32) * 64 + b1 mod 64
      in if is_cont b1 \<and> 128 \<le> v then Some v else None)"
| "utf8_code_point [b0, b1, b2] =
     (let v = (b0 mod 16) * 4096 + (b1 mod 64) * 64 + b2 mod 64
      in if is_cont b1 \<and> is_cont b2 \<and> 2048 \<le> v \<and> \<not> (55296 \<le> v \<and> v \<le> 57343)
         then Some v else None)"
| "utf8_code_point [b0, b1, b2, b3] =
     (let v = (b0 mod 8) * 262144 + (b1 mod 64) * 4096 + (b2 mod 64) * 64 + b3 mod 64
      in if is_cont b1 \<and> is_cont b2 \<and> is_cont b3 \<and> 65536 \<le> v \<and> v \<le> 1114111
         then Some v else None)"
| "utf8_code_point bs = None"

fun utf16_units :: "nat \<Rightarrow> ustr" where
  "utf16_units v =
     (if v < 65536 then [v]
      else [55296 + (v - 65536) div 1024, 56320 + (v - 65536) mod 1024])"

text \<open>
  One step of the Decode operation of ECMAScript (with an empty set of preserved escapes)
  at the head of a non-empty input: the code units it appends, and how many code units it
  consumes beyond the first. \<open>None\<close> is the URIError.
\<close>

definition decode_at :: "ustr \<Rightarrow> (ustr \<times> nat) option" where
  "decode_at s =
     (case s of
        [] \<Rightarrow> None
      | c # cs \<Rightarrow>
          if c \<noteq> 37 then Some ([c], 0)
          else (case cs of
                  a # b # rest \<Rightarrow>
                    (case hex_octet a b of
                       None \<Rightarrow> None
                     | Some b0 \<Rightarrow>
                         (let n = leading_ones b0 in
                          if n = 0 then Some ([b0], 2)
                          else if n = 1 \<or> 4 < n then None
                          else (case cont_octets (n - 1) rest of
                                  None \<Rightarrow> None
                                | Some os \<Rightarrow>
                                    (case utf8_code_point (b0 # os) of
                                       None \<Rightarrow> None
                                     | Some v \<Rightarrow> Some (utf16_units v, 2 + 3 * (n - 1))))))
                | _ \<Rightarrow> None))"

text \<open>\<open>decodeURIComponent\<close>; \<open>None\<close> is the URIError it throws.\<close>

function decodeURIComponent :: "ustr \<Rightarrow> ustr option" where
  "decodeURIComponent s =
     (if s = [] then Some []
      else (case decode_at s of
              None \<Rightarrow> None
            | Some (S, k) \<Rightarrow> map_option ((@) S) (decodeURIComponent (drop (Suc k) s))))"
  by pat_completeness auto
termination
  by (relation "measure length") auto

declare decodeURIComponent.simps [simp del]

section \<open>The host: browser and network\<close>

text \<open>What is thrown: an \<open>Error\<close> of the source with its message, or a host exception.\<close>

datatype js_error = Error ustr | TypeError ustr | HostError ustr

text \<open>
  How an awaited promise ends: it resolves, it rejects, or it never settles (no call of
  the source has a timeout).
\<close>

datatype 'a settled = Resolved 'a | Rejected js_error | Pending

type_synonym blob = "nat list"

record response =
  ok :: bool
  status :: nat
  statusText :: ustr
  headers_get :: "ustr \<Rightarrow> ustr option"
  json :: "jsval settled"
  body_text :: "ustr settled"
  blob :: "blob settled"

record post_body =
  storyId_arg :: jsval
  isEmbedImages :: bool
  cookies :: "jsval list"

text \<open>
  A \<open>fetch\<close> call: a GET with its headers, or the POST with the JSON body; the body's
  \<open>storyId\<close> is \<open>Number(storyId)\<close> of the recorded value.
\<close>

datatype request =
    Get ustr "(ustr \<times> ustr) list"
  | Post ustr "(ustr \<times> ustr) list" post_body

record tab =
  url :: "ustr option"

record host =
  chrome_tabs :: "tab list settled option"
  cookies_getAll :: "ustr \<Rightarrow> jsval list settled"
  fetch :: "request \<Rightarrow> response settled"
  createObjectURL :: "blob \<Rightarrow> ustr"
  userAgent :: ustr
  number_toString :: "rat \<Rightarrow> ustr"
  chrome_downloads :: bool

datatype logarg = LStr ustr | LVal jsval | LErr js_error

datatype console_level = Log | Warn | Err

text \<open>What a run does to the world, in order.\<close>

datatype event =
    Console console_level "logarg list"
  | Alert ustr
  | TabsQuery
  | Fetch request
  | CookiesGetAll ustr
  | CreateObjectURL blob
  | AnchorClick ustr ustr
  | RevokeObjectURL ustr
  | DownloadsDownload ustr ustr

fun fetches :: "event list \<Rightarrow> request list" where
  "fetches [] = []"
| "fetches (Fetch q # es) = q # fetches es"
| "fetches (e # es) = fetches es"


section \<open>Asynchronous code\<close>

text \<open>
  A piece of an async function either completes with a value, throws, or is suspended for
  ever at an \<open>await\<close>; it leaves the events it made so far.
\<close>

datatype 'a res = Done 'a | Thrown js_error | Hung

type_synonym 'a io = "'a res \<times> event list"

definition ret :: "'a \<Rightarrow> 'a io" where
  "ret a = (Done a, [])"

definition throw :: "js_error \<Rightarrow> 'a io" where
  "throw e = (Thrown e, [])"

definition emit :: "event \<Rightarrow> unit io" where
  "emit e = (Done (), [e])"

definition await :: "'a settled \<Rightarrow> 'a io" where
  "await p = (case p of Resolved v \<Rightarrow> (Done v, []) | Rejected e \<Rightarrow> (Thrown e, []) | Pending \<Rightarrow> (Hung, []))"

definition bind_io :: "'a io \<Rightarrow> ('a \<Rightarrow> 'b io) \<Rightarrow> 'b io" where
  "bind_io m f =
     (case m of
        (Done a, t) \<Rightarrow> (case f a of (r, t') \<Rightarrow> (r, t @ t'))
      | (Thrown e, t) \<Rightarrow> (Thrown e, t)
      | (Hung, t) \<Rightarrow> (Hung, t))"

text \<open>\<open>try { m } catch (error) { handler }\<close>\<close>

definition try_catch :: "'a io \<Rightarrow> (js_error \<Rightarrow> 'a io) \<Rightarrow> 'a io" where
  "try_catch m handler =
     (case m of
        (Thrown e, t) \<Rightarrow> (case handler e of (r, t') \<Rightarrow> (r, t @ t'))
      | (Done a, t) \<Rightarrow> (Done a, t)
      | (Hung, t) \<Rightarrow> (Hung, t))"

text \<open>\<open>promise.catch(() => v)\<close>\<close>

definition catch_value :: "'a settled \<Rightarrow> 'a \<Rightarrow> 'a settled" where
  "catch_value p v = (case p of Rejected e \<Rightarrow> Resolved v | Resolved a \<Rightarrow> Resolved a | Pending \<Rightarrow> Pending)"

section \<open>The popup's state\<close>

text \<open>
  The four \<open>useState\<close> cells of \<open>App\<close>. \<open>isValidPage\<close> is \<open>null\<close> (\<open>None\<close>) until the tab
  is classified; \<open>storyId\<close> is \<open>null\<close> (\<open>JNull\<close>) until a story is found, and then holds
  whatever was stored: the digits of the URL, or the \<open>groupId\<close> of the lookup as it came.
\<close>

record popup_state =
  isValidPage :: "bool option"
  storyId :: jsval
  embedImages :: bool
  isLoading :: bool

definition initial_state :: popup_state where
  "initial_state = \<lparr>isValidPage = None, storyId = JNull, embedImages = True, isLoading = False\<rparr>"

datatype completion = Finished | Suspended | Uncaught js_error

text \<open>A run of an async function of the popup: the state and the events it leaves.\<close>

record run =
  final :: popup_state
  trace :: "event list"
  outcome :: completion

definition to_run :: "popup_state \<Rightarrow> popup_state io \<Rightarrow> run" where
  "to_run st m =
     (case m of
        (Done st', t) \<Rightarrow> \<lparr>final = st', trace = t, outcome = Finished\<rparr>
      | (Thrown e, t) \<Rightarrow> \<lparr>final = st, trace = t, outcome = Uncaught e\<rparr>
      | (Hung, t) \<Rightarrow> \<lparr>final = st, trace = t, outcome = Suspended\<rparr>)"

section \<open>The URL classifier\<close>

text \<open>\<open>tabs[0]?.url ?? ''\<close>\<close>

definition active_url :: "tab list \<Rightarrow> ustr" where
  "active_url tabs = (case tabs of [] \<Rightarrow> [] | t # _ \<Rightarrow> (case url t of None \<Rightarrow> [] | Some u \<Rightarrow> u))"

text \<open>
  The \<open>try\<close> block of \<open>checkUrl\<close>: the lookup of the story a part belongs to. The three
  files that have it differ in the name their log lines give the remote service
  (\<open>brand\<close>: \<open>WP\<close> or \<open>Wattpad\<close>) and in nothing else.
\<close>

definition part_request_url :: "ustr \<Rightarrow> ustr" where
  "part_request_url partId =
     str ''https://www.wattpad.com/api/v3/story_parts/'' @ partId @ str ''?fields=groupId''"

definition part_request :: "host \<Rightarrow> ustr \<Rightarrow> request" where
  "part_request h requestUrl = Get requestUrl [(str ''User-Agent'', userAgent h)]"

definition resolve_part :: "string \<Rightarrow> host \<Rightarrow> popup_state \<Rightarrow> ustr \<Rightarrow> popup_state io" where
  "resolve_part brand h st requestUrl =
     bind_io (emit (Fetch (part_request h requestUrl))) (\<lambda>_.
     bind_io (await (fetch h (part_request h requestUrl))) (\<lambda>response.
     bind_io
       (if \<not> ok response then
          bind_io (await (catch_value (body_text response) (str ''Could not read error body.'')))
            (\<lambda>errorBody.
          bind_io (emit (Console Err
                     [LStr (str brand @ str '' API failed with status: '' @ show_nat (status response))]))
            (\<lambda>_.
          bind_io (emit (Console Err
                     [LStr (str brand @ str '' API Error Response Body:''), LStr errorBody]))
            (\<lambda>_.
          throw (Error (str brand @ str '' API failed with status: ''
                        @ show_nat (status response) @ str ''.'')))))
        else ret ()) (\<lambda>_.
     bind_io (await (json response)) (\<lambda>data.
     bind_io (emit (Console Log [LStr (str brand @ str '' API Success Response:''), LVal data]))
       (\<lambda>_.
     (case get_prop data (str ''groupId'') of
        Some groupId \<Rightarrow>
          if truthy data \<and> truthy groupId
          then ret (st\<lparr>isValidPage := Some True, storyId := groupId\<rparr>)
          else ret (st\<lparr>isValidPage := Some False\<rparr>)
      | None \<Rightarrow> ret (st\<lparr>isValidPage := Some False\<rparr>)))))))"

text \<open>
  \<open>checkUrl\<close>, the effect that runs once when the popup mounts (the unnamed files).
  Without \<open>chrome.tabs\<close> it takes the development fallback.
\<close>

definition checkUrl :: "string \<Rightarrow> host \<Rightarrow> popup_state \<Rightarrow> run" where
  "checkUrl brand h st =
     (case chrome_tabs h of
        None \<Rightarrow>
          \<lparr>final = st\<lparr>isValidPage := Some True, storyId := JStr (str ''123456789'')\<rparr>,
           trace = [], outcome = Finished\<rparr>
      | Some query \<Rightarrow>
          to_run st
            (bind_io (emit TabsQuery) (\<lambda>_.
             bind_io (await query) (\<lambda>tabs.
             (let url = active_url tabs;
                  storyMatch = js_match url wattpadStoryRegex;
                  storyPartMatch = js_match url wattpadStoryPartRegex
              in
              if group_truthy storyMatch 1 then
                (let directStoryId = match_group storyMatch 1 in
                 bind_io (emit (Console Log
                            [LStr ([9989] @ str '' Direct Story URL found. Story ID:''),
                             LStr directStoryId])) (\<lambda>_.
                 ret (st\<lparr>isValidPage := Some True, storyId := JStr directStoryId\<rparr>)))
              else if group_truthy storyPartMatch 1 then
                (let partId = match_group storyPartMatch 1;
                     requestUrl = part_request_url partId
                 in
                 bind_io (emit (Console Log
                            [LStr ([55357, 56589] @ str '' Story Part URL found. Extracted Part ID:''),
                             LStr partId])) (\<lambda>_.
                 bind_io (emit (Console Log
                            [LStr ([10145, 65039] @ str '' Making API Request to URL:''),
                             LStr requestUrl])) (\<lambda>_.
                 try_catch (resolve_part brand h st requestUrl)
                   (\<lambda>error.
                      bind_io (emit (Console Err
                                 [LStr (str ''Failed to resolve story part ID:''), LErr error]))
                        (\<lambda>_.
                      ret (st\<lparr>isValidPage := Some False\<rparr>))))))
              else ret (st\<lparr>isValidPage := Some False\<rparr>))))))"

text \<open>
  The effect of popup/App.tsx: one pattern, the story id in group 2, no lookup. The query
  takes a callback, which a query that never answers never calls; a failed query calls it
  without tabs, and \<open>tabs[0]\<close> throws.
\<close>

definition checkUrl_App :: "host \<Rightarrow> popup_state \<Rightarrow> run" where
  "checkUrl_App h st =
     (case chrome_tabs h of
        None \<Rightarrow>
          \<lparr>final = st\<lparr>isValidPage := Some True, storyId := JStr (str ''123456789'')\<rparr>,
           trace = [], outcome = Finished\<rparr>
      | Some query \<Rightarrow>
          to_run st
            (bind_io (emit TabsQuery) (\<lambda>_.
             bind_io (await (case query of
                               Rejected e \<Rightarrow> Rejected (TypeError (str ''tabs is undefined''))
                             | q \<Rightarrow> q)) (\<lambda>tabs.
             (let url = active_url tabs;
                  match = js_match url wattpadStoryRegex_App
              in
              if group_truthy match 2
              then ret (st\<lparr>isValidPage := Some True, storyId := JStr (match_group match 2)\<rparr>)
              else ret (st\<lparr>isValidPage := Some False\<rparr>))))))"

section \<open>The download\<close>

text \<open>
  The request to the backend, the same in every file: the cookies of the domain, one POST,
  and the \<open>Error\<close> thrown on a status that is not a success.
\<close>

definition epub_request :: "ustr \<Rightarrow> popup_state \<Rightarrow> jsval list \<Rightarrow> request" where
  "epub_request apiEndpoint st cs =
     Post apiEndpoint [(str ''Content-Type'', str ''application/json'')]
       \<lparr>storyId_arg = storyId st, isEmbedImages = embedImages st, cookies = cs\<rparr>"

text \<open>\<^verbatim>\<open>`API Error: ${errorData?.error || response.statusText}`\<close>\<close>

definition api_error_message :: "host \<Rightarrow> response \<Rightarrow> jsval \<Rightarrow> ustr" where
  "api_error_message h response errorData =
     str ''API Error: '' @
       (case get_prop errorData (str ''error'') of
          Some e \<Rightarrow> if truthy e then js_to_string (number_toString h) e else statusText response
        | None \<Rightarrow> statusText response)"

definition request_epub :: "ustr \<Rightarrow> host \<Rightarrow> popup_state \<Rightarrow> response io" where
  "request_epub apiEndpoint h st =
     bind_io (emit (CookiesGetAll (str ''wattpad.com''))) (\<lambda>_.
     bind_io (await (cookies_getAll h (str ''wattpad.com''))) (\<lambda>cookies.
     bind_io (emit (Fetch (epub_request apiEndpoint st cookies))) (\<lambda>_.
     bind_io (await (fetch h (epub_request apiEndpoint st cookies))) (\<lambda>response.
     if \<not> ok response then
       bind_io (await (catch_value (json response) JNull)) (\<lambda>errorData.
       throw (Error (api_error_message h response errorData)))
     else ret response))))"

text \<open>
  The \<open>try\<close>/\<open>catch\<close>/\<open>finally\<close> around the body of \<open>handleDownload\<close>, the same in every
  file. A body suspended for ever never reaches \<open>finally\<close>.
\<close>

definition download_failed_alert :: ustr where
  "download_failed_alert = str ''An error occurred during the download.''"

definition run_download :: "(host \<Rightarrow> popup_state \<Rightarrow> unit io) \<Rightarrow> host \<Rightarrow> popup_state \<Rightarrow> run" where
  "run_download body h st =
     (let loading = st\<lparr>isLoading := True\<rparr> in
      case try_catch (body h st)
             (\<lambda>error.
                bind_io (emit (Console Err [LStr (str ''Download failed:''), LErr error])) (\<lambda>_.
                emit (Alert download_failed_alert))) of
        (Hung, t) \<Rightarrow> \<lparr>final = loading, trace = t, outcome = Suspended\<rparr>
      | (Done u, t) \<Rightarrow> \<lparr>final = loading\<lparr>isLoading := False\<rparr>, trace = t, outcome = Finished\<rparr>
      | (Thrown e, t) \<Rightarrow> \<lparr>final = loading\<lparr>isLoading := False\<rparr>, trace = t, outcome = Uncaught e\<rparr>)"

subsection \<open>The file that reads Content-Disposition\<close>

text \<open>The file name of a \<open>Content-Disposition\<close> header; \<open>None\<close> is \<open>null\<close>.\<close>

definition disposition_filename :: "ustr option \<Rightarrow> ustr option" where
  "disposition_filename disposition =
     (case disposition of
        None \<Rightarrow> None
      | Some d \<Rightarrow>
          if d = [] then None
          else (let utf8Match = js_match d utf8FilenameRegex in
                if group_truthy utf8Match 1 then
                  (case decodeURIComponent (match_group utf8Match 1) of
                     Some decoded \<Rightarrow> Some decoded
                   | None \<Rightarrow> Some (match_group utf8Match 1))
                else (let match = js_match d plainFilenameRegex in
                      if group_truthy match 1 then Some (match_group match 1) else None)))"

definition download_filename :: "host \<Rightarrow> popup_state \<Rightarrow> response \<Rightarrow> ustr" where
  "download_filename h st response =
     (case disposition_filename (headers_get response (str ''Content-Disposition'')) of
        None \<Rightarrow> str ''story-'' @ js_to_string (number_toString h) (storyId st) @ str ''.epub''
      | Some f \<Rightarrow>
          if f = [] then str ''story-'' @ js_to_string (number_toString h) (storyId st) @ str ''.epub''
          else f)"

definition download_body_disposition :: "host \<Rightarrow> popup_state \<Rightarrow> unit io" where
  "download_body_disposition h st =
     bind_io (request_epub (str ''https://crx-0-2-6-novn.shuttle.app/generate-epub'') h st)
       (\<lambda>response.
     bind_io (await (blob response)) (\<lambda>b.
     bind_io (emit (CreateObjectURL b)) (\<lambda>_.
     (let url = createObjectURL h b;
          filename = download_filename h st response
      in
      bind_io (emit (AnchorClick url filename)) (\<lambda>_.
      emit (RevokeObjectURL url))))))"

definition handleDownload_disposition :: "host \<Rightarrow> popup_state \<Rightarrow> run" where
  "handleDownload_disposition = run_download download_body_disposition"

subsection \<open>The file that fetches the title\<close>

text \<open>\<^verbatim>\<open>title.replace(/[\\/:\*?"<>\|]/g, '_')\<close>\<close>

definition sanitize :: "ustr \<Rightarrow> ustr" where
  "sanitize title =
     map (\<lambda>c. if c \<in> {92, 47, 58, 42, 63, 34, 60, 62, 124} then 95 else c) title"

text \<open>\<^verbatim>\<open>fetch(`https://www.wattpad.com/api/v3/stories/${storyId}?fields=title`)\<close>\<close>

definition title_request :: "host \<Rightarrow> popup_state \<Rightarrow> request" where
  "title_request h st =
     Get (str ''https://www.wattpad.com/api/v3/stories/''
          @ js_to_string (number_toString h) (storyId st) @ str ''?fields=title'') []"

definition download_body_title :: "host \<Rightarrow> popup_state \<Rightarrow> unit io" where
  "download_body_title h st =
     (let id = js_to_string (number_toString h) (storyId st);
          metaRequest = title_request h st
      in
      bind_io (emit (Fetch metaRequest)) (\<lambda>_.
      bind_io (await (fetch h metaRequest)) (\<lambda>metaResponse.
      bind_io
        (if \<not> ok metaResponse then
           emit (Console Warn
             [LStr (str ''Could not fetch story title from Wattpad API. Using story ID as fallback.'')])
         else ret ()) (\<lambda>_.
      bind_io (await (catch_value (json metaResponse) (JObj []))) (\<lambda>metaData.
      (let title = (case get_prop metaData (str ''title'') of
                      Some t \<Rightarrow> if truthy t then t else JStr (str ''story_'' @ id)
                    | None \<Rightarrow> JStr (str ''story_'' @ id))
       in
       bind_io
         (case title of
            JStr s \<Rightarrow> ret (sanitize s)
          | _ \<Rightarrow> throw (TypeError (str ''title.replace is not a function''))) (\<lambda>sanitizedTitle.
       (let filename = sanitizedTitle @ str ''.epub'' in
        bind_io (request_epub (str ''https://modest-chebyshev-za7x.shuttle.app/generate-epub'') h st)
          (\<lambda>response.
        bind_io (await (blob response)) (\<lambda>b.
        bind_io (emit (CreateObjectURL b)) (\<lambda>_.
        (let url = createObjectURL h b in
         bind_io (emit (AnchorClick url filename)) (\<lambda>_.
         emit (RevokeObjectURL url))))))))))))))"

definition handleDownload_title :: "host \<Rightarrow> popup_state \<Rightarrow> run" where
  "handleDownload_title = run_download download_body_title"

subsection \<open>The files that use the download manager\<close>

text \<open>
  popup/App.tsx and the third unnamed file, which differ in the endpoint. The object URL
  is revoked in the callback of \<open>chrome.downloads.download\<close>, after the run.
\<close>

definition download_body_native :: "ustr \<Rightarrow> host \<Rightarrow> popup_state \<Rightarrow> unit io" where
  "download_body_native apiEndpoint h st =
     bind_io (request_epub apiEndpoint h st) (\<lambda>response.
     bind_io (await (blob response)) (\<lambda>b.
     bind_io (emit (CreateObjectURL b)) (\<lambda>_.
     (let url = createObjectURL h b;
          filename = str ''story_'' @ js_to_string (number_toString h) (storyId st) @ str ''.epub''
      in
      if chrome_downloads h then emit (DownloadsDownload url filename)
      else throw (TypeError (str ''chrome.downloads is undefined''))))))"

definition handleDownload_native :: "ustr \<Rightarrow> host \<Rightarrow> popup_state \<Rightarrow> run" where
  "handleDownload_native apiEndpoint = run_download (download_body_native apiEndpoint)"

definition handleDownload_App :: "host \<Rightarrow> popup_state \<Rightarrow> run" where
  "handleDownload_App = handleDownload_native (str ''https://YOUR_BACKEND_URL_HERE/generate-epub'')"

section \<open>The view\<close>

record functional_ui =
  checkbox_checked :: bool
  checkbox_disabled :: bool
  button_disabled :: bool
  button_label :: ustr

datatype view = Loading | FunctionalUI functional_ui | InvalidPageUI

text \<open>
  What \<open>App\<close> returns. \<open>locks_toggle\<close> tells the files that disable the checkbox while
  loading from those that do not.
\<close>

definition render :: "bool \<Rightarrow> popup_state \<Rightarrow> view" where
  "render locks_toggle st =
     (case isValidPage st of
        None \<Rightarrow> Loading
      | Some True \<Rightarrow>
          FunctionalUI
            \<lparr>checkbox_checked = embedImages st,
             checkbox_disabled = (locks_toggle \<and> isLoading st),
             button_disabled = isLoading st,
             button_label = (if isLoading st then str ''Processing...'' else str ''Download Story'')\<rparr>
      | Some False \<Rightarrow> InvalidPageUI)"

text \<open>
  A click on the button of the view: \<open>onClick={handleDownload}\<close> runs unless the button is
  disabled or not there; a disabled button gets no click.
\<close>

definition click_download :: "view \<Rightarrow> (host \<Rightarrow> popup_state \<Rightarrow> run) \<Rightarrow> host \<Rightarrow> popup_state \<Rightarrow> run" where
  "click_download v handleDownload h st =
     (case v of
        FunctionalUI ui \<Rightarrow>
          if button_disabled ui then \<lparr>final = st, trace = [], outcome = Finished\<rparr>
          else handleDownload h st
      | _ \<Rightarrow> \<lparr>final = st, trace = [], outcome = Finished\<rparr>)"

section \<open>Notions used in the properties\<close>

text \<open>The capture groups of a regular expression.\<close>

fun rx_groups :: "rx \<Rightarrow> nat set" where
  "rx_groups (Opt a) = rx_groups a"
| "rx_groups (Seq a b) = rx_groups a \<union> rx_groups b"
| "rx_groups (Grp n a) = insert n (rx_groups a)"
| "rx_groups a = {}"

text \<open>Every match of \<open>a\<close> leaves in group \<open>n\<close> a text that satisfies \<open>Q\<close>.\<close>

definition captures :: "rx \<Rightarrow> nat \<Rightarrow> (ustr \<Rightarrow> bool) \<Rightarrow> bool" where
  "captures a n Q = (\<forall>s st. st \<in> set (rx_run a s) \<longrightarrow> (\<exists>g. fst st n = Some g \<and> Q g))"

text \<open>
  The direct-story URLs, spelled out: scheme http or https, host wattpad.com with or
  without www, path \<open>/story/\<close>, digits, a hyphen, anything.
\<close>

definition direct_story_url :: "ustr \<Rightarrow> ustr \<Rightarrow> ustr \<Rightarrow> bool" where
  "direct_story_url u digits rest \<longleftrightarrow>
     digits \<noteq> [] \<and> list_all is_digit digits \<and>
     (u = str ''http://wattpad.com/story/'' @ digits @ str ''-'' @ rest \<or>
      u = str ''https://wattpad.com/story/'' @ digits @ str ''-'' @ rest \<or>
      u = str ''http://www.wattpad.com/story/'' @ digits @ str ''-'' @ rest \<or>
      u = str ''https://www.wattpad.com/story/'' @ digits @ str ''-'' @ rest)"

text \<open>The events of the chapter branch of \<open>checkUrl\<close> before the lookup.\<close>

definition part_prefix :: "ustr \<Rightarrow> event list" where
  "part_prefix partId =
     [TabsQuery,
      Console Log [LStr ([55357, 56589] @ str '' Story Part URL found. Extracted Part ID:''),
                   LStr partId],
      Console Log [LStr ([10145, 65039] @ str '' Making API Request to URL:''),
                   LStr (part_request_url partId)]]"

text \<open>
  The lookup of a chapter fails (the request rejects, the status is not a success and the
  error body has been read or has failed to be read, or the body is not JSON) or succeeds
  without a \<open>groupId\<close> property.
\<close>

definition lookup_gives_no_group :: "response settled \<Rightarrow> bool" where
  "lookup_gives_no_group answer =
     (case answer of
        Rejected e \<Rightarrow> True
      | Pending \<Rightarrow> False
      | Resolved r \<Rightarrow>
          if \<not> ok r then body_text r \<noteq> Pending
          else (case json r of
                  Rejected e \<Rightarrow> True
                | Pending \<Rightarrow> False
                | Resolved data \<Rightarrow> get_prop data (str ''groupId'') = None))"


subsection \<open>Example hosts\<close>

definition epub_response :: response where
  "epub_response =
     \<lparr>ok = True, status = 200, statusText = str ''OK'', headers_get = (\<lambda>name. None),
      json = Rejected (HostError (str ''not JSON'')), body_text = Resolved [],
      blob = Resolved [80, 75, 3, 4]\<rparr>"

text \<open>The active tab shows a story; every request is answered with an e-book.\<close>

definition story_host :: host where
  "story_host =
     \<lparr>chrome_tabs = Some (Resolved [\<lparr>url = Some (str ''https://www.wattpad.com/story/999-my-tale'')\<rparr>]),
      cookies_getAll = (\<lambda>domain. Resolved []),
      fetch = (\<lambda>request. Resolved epub_response),
      createObjectURL = (\<lambda>b. str ''blob:1''),
      userAgent = str ''UA'',
      number_toString = (\<lambda>q. []),
      chrome_downloads = True\<rparr>"

definition story_state :: popup_state where
  "story_state = initial_state\<lparr>isValidPage := Some True, storyId := JStr (str ''999'')\<rparr>"

text \<open>The active tab shows a chapter; \<open>answer\<close> is how the lookup ends.\<close>

definition chapter_tabs :: "tab list" where
  "chapter_tabs = [\<lparr>url = Some (str ''https://www.wattpad.com/555'')\<rparr>]"

definition chapter_host :: "response settled \<Rightarrow> host" where
  "chapter_host answer =
     story_host\<lparr>chrome_tabs := Some (Resolved chapter_tabs), fetch := (\<lambda>request. answer)\<rparr>"

definition chapter_match :: "nat \<rightharpoonup> ustr" where
  "chapter_match = [1 \<mapsto> str ''555'', 0 \<mapsto> str ''https://www.wattpad.com/555'']"

definition json_response :: "jsval \<Rightarrow> response" where
  "json_response data = epub_response\<lparr>json := Resolved data\<rparr>"

text \<open>Lookups that fail, or answer without a \<open>groupId\<close>.\<close>

definition lookup_rejected_host :: host where
  "lookup_rejected_host = chapter_host (Rejected (TypeError (str ''Failed to fetch'')))"

definition lookup_404_host :: host where
  "lookup_404_host =
     chapter_host (Resolved (epub_response\<lparr>ok := False, status := 404, statusText := str ''Not Found''\<rparr>))"

definition lookup_not_json_host :: host where
  "lookup_not_json_host = chapter_host (Resolved epub_response)"

definition lookup_empty_host :: host where
  "lookup_empty_host = chapter_host (Resolved (json_response (JObj [])))"

text \<open>Lookups that answer \<^verbatim>\<open>{"groupId": v}\<close>.\<close>

definition group_host :: "jsval \<Rightarrow> host" where
  "group_host v = chapter_host (Resolved (json_response (JObj [(str ''groupId'', v)])))"

text \<open>The backend answers 500 with the body \<^verbatim>\<open>{"error":"quota exceeded"}\<close>.\<close>

definition quota_response :: response where
  "quota_response =
     epub_response\<lparr>ok := False, status := 500, statusText := str ''Internal Server Error'',
       json := Resolved (JObj [(str ''error'', JStr (str ''quota exceeded''))])\<rparr>"

definition quota_host :: host where
  "quota_host = story_host\<lparr>fetch := (\<lambda>request. Resolved quota_response)\<rparr>"

text \<open>The backend answers 502 with a body that is not JSON.\<close>

definition bad_gateway_host :: host where
  "bad_gateway_host =
     story_host\<lparr>fetch := (\<lambda>request. Resolved (epub_response\<lparr>ok := False, status := 502,
                                                    statusText := str ''Bad Gateway''\<rparr>))\<rparr>"

text \<open>The cookie store refuses; the body of the e-book cannot be read.\<close>

definition cookies_denied_host :: host where
  "cookies_denied_host =
     story_host\<lparr>cookies_getAll := (\<lambda>domain. Rejected (TypeError (str ''chrome.cookies is undefined'')))\<rparr>"

definition broken_body_host :: host where
  "broken_body_host =
     story_host\<lparr>fetch := (\<lambda>request. Resolved (epub_response\<lparr>blob := Rejected (TypeError (str ''network error''))\<rparr>))\<rparr>"

text \<open>The network is down for GET requests; the backend would answer.\<close>

definition offline_title_host :: host where
  "offline_title_host =
     story_host\<lparr>fetch := (\<lambda>request. case request of
                                  Get u hs \<Rightarrow> Rejected (TypeError (str ''Failed to fetch''))
                                | Post u hs b \<Rightarrow> Resolved epub_response)\<rparr>"

text \<open>The active tab shows a story URL with no hyphen after the digits.\<close>

definition hyphenless_tabs :: "tab list" where
  "hyphenless_tabs = [\<lparr>url = Some (str ''https://www.wattpad.com/story/123'')\<rparr>]"

definition hyphenless_host :: host where
  "hyphenless_host = story_host\<lparr>chrome_tabs := Some (Resolved hyphenless_tabs)\<rparr>"

subsection \<open>Example headers\<close>

text \<open>\<^verbatim>\<open>attachment; filename="abc.epub"\<close>\<close>

definition plain_header :: ustr where
  "plain_header = str ''attachment; filename='' @ [34] @ str ''abc.epub'' @ [34]"

text \<open>\<^verbatim>\<open>filename*=UTF-8''a%20b.epub\<close>\<close>

definition utf8_header :: ustr where
  "utf8_header = str ''filename*=UTF-8'' @ [39, 39] @ str ''a%20b.epub''"

text \<open>\<^verbatim>\<open>attachment; filename="abc.epub"; filename*=UTF-8''a%20b.epub\<close>\<close>

definition both_header :: ustr where
  "both_header = plain_header @ str ''; '' @ utf8_header"

definition with_disposition :: "response \<Rightarrow> ustr \<Rightarrow> response" where
  "with_disposition response v =
     response\<lparr>headers_get := (\<lambda>name. if name = str ''Content-Disposition'' then Some v else None)\<rparr>"

definition sanitized_fallback :: "host \<Rightarrow> popup_state \<Rightarrow> ustr" where
  "sanitized_fallback h st =
     sanitize (str ''story_'' @ js_to_string (number_toString h) (storyId st)) @ str ''.epub''"

section \<open>Properties\<close>


subsection \<open>Capture groups\<close>


lemma rx_run_keeps:
  "st \<in> set (rx_run a s) \<Longrightarrow> n \<notin> rx_groups a \<Longrightarrow> fst st n = fst s n"
proof (induction a arbitrary: s st)
  case Bol
  then show ?case by (cases s) (auto split: if_splits)
next
  case (Lit x)
  then show ?case by (cases s) (auto split: if_splits)
next
  case (LitCI x)
  then show ?case by (cases s) (auto split: if_splits)
next
  case (Star x)
  then show ?case by (cases s) auto
next
  case (Plus x)
  then show ?case by (cases s) auto
next
  case (Opt a)
  from Opt.prems(1) consider "st \<in> set (rx_run a s)" | "st = s" by auto
  then show ?case
  proof cases
    case 1
    moreover have "n \<notin> rx_groups a" using Opt.prems(2) by simp
    ultimately show ?thesis by (rule Opt.IH)
  next
    case 2
    then show ?thesis by simp
  qed
next
  case (Seq a b)
  from Seq.prems obtain s1 where "s1 \<in> set (rx_run a s)" "st \<in> set (rx_run b s1)" by auto
  with Seq.IH Seq.prems(2) show ?case by auto
next
  case (Grp m a)
  obtain c p r where s: "s = (c, p, r)" by (cases s)
  from Grp.prems s obtain c' p' r' where
    "(c', p', r') \<in> set (rx_run a (c, p, r))" "st = (c'(m \<mapsto> take (p' - p) r), p', r')"
    by auto
  with Grp.IH[of "(c', p', r')" "(c, p, r)"] Grp.prems(2) s show ?case by auto
qed

lemma captures_plus: "captures (Grp n (Plus P)) n (\<lambda>g. g \<noteq> [] \<and> list_all P g)"
proof -
  have "\<exists>g. fst st n = Some g \<and> g \<noteq> [] \<and> list_all P g" if "st \<in> set (rx_run (Grp n (Plus P)) s)" for s st
  proof -
    obtain c p r where s: "s = (c, p, r)" by (cases s)
    from that s obtain k where k: "1 \<le> k" "k \<le> length (takeWhile P r)" and st: "fst st n = Some (take k r)"
      by auto
    have le: "k \<le> length r" using k(2) length_takeWhile_le[of P r] by linarith
    have "take k r = take k (takeWhile P r)"
      using k(2) by (metis takeWhile_dropWhile_id take_append diff_is_0_eq' take_0 append_Nil2)
    then have "list_all P (take k r)"
      by (metis in_set_takeD list_all_iff set_takeWhileD)
    moreover have "take k r \<noteq> []" using k(1) le by auto
    ultimately show ?thesis using st by auto
  qed
  then show ?thesis unfolding captures_def by blast
qed

lemma captures_seq_right:
  assumes "captures b n Q"
  shows "captures (Seq a b) n Q"
  unfolding captures_def
proof (intro allI impI)
  fix s st
  assume "st \<in> set (rx_run (Seq a b) s)"
  then obtain s1 where "st \<in> set (rx_run b s1)" by auto
  with assms show "\<exists>g. fst st n = Some g \<and> Q g" unfolding captures_def by blast
qed

lemma captures_seq_left:
  assumes "captures a n Q" and "n \<notin> rx_groups b"
  shows "captures (Seq a b) n Q"
  unfolding captures_def
proof (intro allI impI)
  fix s st
  assume "st \<in> set (rx_run (Seq a b) s)"
  then obtain s1 where s1: "s1 \<in> set (rx_run a s)" and st: "st \<in> set (rx_run b s1)" by auto
  from assms(1) s1 obtain g where "fst s1 n = Some g" "Q g" unfolding captures_def by blast
  moreover have "fst st n = fst s1 n" using rx_run_keeps[OF st assms(2)] .
  ultimately show "\<exists>g. fst st n = Some g \<and> Q g" by simp
qed

lemma exec_from_result:
  "exec_from re p s = Some m \<Longrightarrow> \<exists>s0 st. st \<in> set (rx_run re s0) \<and> (\<forall>i. i \<noteq> 0 \<longrightarrow> m i = fst st i)"
proof (induction s arbitrary: p)
  case Nil
  then show ?case
    by (auto split: list.splits) (metis fst_conv list.set_intros(1))
next
  case (Cons x xs)
  show ?case
  proof (cases "rx_run re (Map.empty, p, x # xs)")
    case Nil
    with Cons show ?thesis by auto
  next
    case (Cons st sts)
    with Cons.prems show ?thesis
      by (cases st) (auto, metis fst_conv list.set_intros(1))
  qed
qed

lemma js_match_captures:
  "captures re n Q \<Longrightarrow> n \<noteq> 0 \<Longrightarrow> js_match s re = Some m \<Longrightarrow> \<exists>g. m n = Some g \<and> Q g"
  unfolding js_match_def captures_def
  by (metis exec_from_result)

lemma story_captures: "captures wattpadStoryRegex 1 (\<lambda>g. g \<noteq> [] \<and> list_all is_digit g)"
  unfolding wattpadStoryRegex_def
  by (simp add: captures_seq_right captures_seq_left captures_plus)

lemma part_captures: "captures wattpadStoryPartRegex 1 (\<lambda>g. g \<noteq> [] \<and> list_all is_digit g)"
  unfolding wattpadStoryPartRegex_def
  by (simp add: captures_seq_right captures_seq_left captures_plus)

lemma app_captures: "captures wattpadStoryRegex_App 2 (\<lambda>g. g \<noteq> [] \<and> list_all is_digit g)"
  unfolding wattpadStoryRegex_App_def
  by (simp add: captures_seq_right captures_seq_left captures_plus)


subsection \<open>The matches as a set\<close>


lemma in_run_Bol: "st \<in> set (rx_run Bol (c, p, r)) \<longleftrightarrow> p = 0 \<and> st = (c, p, r)"
  by auto

lemma in_run_Lit:
  "st \<in> set (rx_run (Lit s) (c, p, r)) \<longleftrightarrow> (\<exists>r'. r = s @ r' \<and> st = (c, p + length s, r'))"
proof -
  have "take (length s) r = s \<longleftrightarrow> (\<exists>r'. r = s @ r')"
    by (metis append_eq_conv_conj append_take_drop_id)
  then show ?thesis by (auto simp: append_eq_conv_conj)
qed

lemma in_run_Opt: "st \<in> set (rx_run (Opt a) s) \<longleftrightarrow> st \<in> set (rx_run a s) \<or> st = s"
  by auto

lemma in_run_Seq:
  "st \<in> set (rx_run (Seq a b) s) \<longleftrightarrow>
     (\<exists>c1 p1 r1. (c1, p1, r1) \<in> set (rx_run a s) \<and> st \<in> set (rx_run b (c1, p1, r1)))"
  by auto

lemma take_takeWhile_iff:
  "k \<le> length (takeWhile P r) \<longleftrightarrow> k \<le> length r \<and> list_all P (take k r)"
proof (induction r arbitrary: k)
  case Nil
  then show ?case by simp
next
  case (Cons x xs)
  then show ?case by (cases k) auto
qed

lemma in_run_Plus:
  "st \<in> set (rx_run (Plus P) (c, p, r)) \<longleftrightarrow>
     (\<exists>g r'. r = g @ r' \<and> g \<noteq> [] \<and> list_all P g \<and> st = (c, p + length g, r'))"
proof
  assume "st \<in> set (rx_run (Plus P) (c, p, r))"
  then obtain k where k: "1 \<le> k" "k \<le> length (takeWhile P r)" and st: "st = (c, p + k, drop k r)"
    by auto
  from k(2) have kr: "k \<le> length r" "list_all P (take k r)" by (simp_all add: take_takeWhile_iff)
  have "r = take k r @ drop k r" by simp
  moreover have "take k r \<noteq> []" using k(1) kr(1) by auto
  moreover have "st = (c, p + length (take k r), drop k r)" using st kr(1) by simp
  ultimately show "\<exists>g r'. r = g @ r' \<and> g \<noteq> [] \<and> list_all P g \<and> st = (c, p + length g, r')"
    using kr(2) by blast
next
  assume "\<exists>g r'. r = g @ r' \<and> g \<noteq> [] \<and> list_all P g \<and> st = (c, p + length g, r')"
  then obtain g r' where g: "r = g @ r'" "g \<noteq> []" "list_all P g" "st = (c, p + length g, r')"
    by blast
  have "length g \<le> length (takeWhile P r)"
    using g(1,3) by (simp add: take_takeWhile_iff)
  moreover have "1 \<le> length g" using g(2) by (cases g) auto
  ultimately have "length g \<in> set (rev [1..<Suc (length (takeWhile P r))])" by auto
  then have "(c, p + length g, drop (length g) r) \<in> set (rx_run (Plus P) (c, p, r))"
    by (simp del: set_rev upt_Suc add: image_iff)
  then show "st \<in> set (rx_run (Plus P) (c, p, r))" using g(1,4) by simp
qed

lemma in_run_Star:
  "st \<in> set (rx_run (Star P) (c, p, r)) \<longleftrightarrow>
     (\<exists>g r'. r = g @ r' \<and> list_all P g \<and> st = (c, p + length g, r'))"
proof
  assume "st \<in> set (rx_run (Star P) (c, p, r))"
  then obtain k where k: "k \<le> length (takeWhile P r)" and st: "st = (c, p + k, drop k r)"
    by auto
  from k have kr: "k \<le> length r" "list_all P (take k r)" by (simp_all add: take_takeWhile_iff)
  have "r = take k r @ drop k r" by simp
  moreover have "st = (c, p + length (take k r), drop k r)" using st kr(1) by simp
  ultimately show "\<exists>g r'. r = g @ r' \<and> list_all P g \<and> st = (c, p + length g, r')"
    using kr(2) by blast
next
  assume "\<exists>g r'. r = g @ r' \<and> list_all P g \<and> st = (c, p + length g, r')"
  then obtain g r' where g: "r = g @ r'" "list_all P g" "st = (c, p + length g, r')"
    by blast
  have "length g \<le> length (takeWhile P r)"
    using g(1,2) by (simp add: take_takeWhile_iff)
  then have "length g \<in> set (rev [0..<Suc (length (takeWhile P r))])" by auto
  then have "(c, p + length g, drop (length g) r) \<in> set (rx_run (Star P) (c, p, r))"
    by (simp del: set_rev upt_Suc add: image_iff)
  then show "st \<in> set (rx_run (Star P) (c, p, r))" using g(1,3) by simp
qed

lemma in_run_Grp:
  "st \<in> set (rx_run (Grp n a) (c, p, r)) \<longleftrightarrow>
     (\<exists>c' p' r'. (c', p', r') \<in> set (rx_run a (c, p, r)) \<and> st = (c'(n \<mapsto> take (p' - p) r), p', r'))"
  by (auto simp: image_iff) force


subsection \<open>Anchored patterns and the shape of a direct-story URL\<close>


lemma exec_from_anchored: "exec_from (Seq Bol a) (Suc p) s = None"
  by (induction s arbitrary: p) auto

lemma js_match_anchored:
  "js_match s (Seq Bol a) =
     (case rx_run (Seq Bol a) (Map.empty, 0, s) of
        [] \<Rightarrow> None
      | (c, p', r') # _ \<Rightarrow> Some (c(0 \<mapsto> take p' s)))"
  unfolding js_match_def
  by (cases s) (auto simp: exec_from_anchored split: list.splits)

lemma js_match_anchored_in:
  assumes "js_match s (Seq Bol a) = Some m"
  obtains c p' r' where "(c, p', r') \<in> set (rx_run (Seq Bol a) (Map.empty, 0, s))" "m = c(0 \<mapsto> take p' s)"
proof -
  from assms obtain c p' r' sts where "rx_run (Seq Bol a) (Map.empty, 0, s) = (c, p', r') # sts"
    and "m = c(0 \<mapsto> take p' s)"
    unfolding js_match_anchored by (auto split: list.splits)
  then show ?thesis using that by (metis list.set_intros(1))
qed

lemmas in_run = in_run_Bol in_run_Lit in_run_Opt in_run_Seq in_run_Plus in_run_Star in_run_Grp

lemma str_append: "str (a @ b) = str a @ str b"
  by (simp add: str_def)

lemma str_app2: "str a @ str b @ x = str (a @ b) @ x"
  by (simp add: str_def)

lemma story_shape:
  assumes "js_match u wattpadStoryRegex = Some m"
  shows "\<exists>digits rest. direct_story_url u digits rest \<and> m 1 = Some digits"
proof -
  from assms obtain c p' r' where
    st: "(c, p', r') \<in> set (rx_run wattpadStoryRegex (Map.empty, 0, u))" and m: "m = c(0 \<mapsto> take p' u)"
    unfolding wattpadStoryRegex_def seqs.simps by (rule js_match_anchored_in)
  from st have "\<exists>digits rest. direct_story_url u digits rest \<and> c 1 = Some digits"
    unfolding wattpadStoryRegex_def seqs.simps direct_story_url_def
    by (auto simp add: in_run str_app2 simp del: rx_run.simps)
  then show ?thesis using m by simp
qed



lemma takeWhile_run:
  assumes "list_all P g" and "r' = [] \<or> \<not> P (hd r')"
  shows "takeWhile P (g @ r') = g"
proof -
  have "takeWhile P r' = []" using assms(2) by (cases r') auto
  then show ?thesis using assms(1) by (simp add: list_all_iff takeWhile_append2)
qed

lemma plus_greedy:
  assumes "g \<noteq> []" "list_all P g" "r' = [] \<or> \<not> P (hd r')"
  shows "rx_run (Plus P) (c, p, g @ r') =
           (c, p + length g, r') # map (\<lambda>k. (c, p + k, drop k (g @ r'))) (rev [1..<length g])"
proof -
  have "1 \<le> length g" using assms(1) by (cases g) auto
  then have "[1..<Suc (length g)] = [1..<length g] @ [length g]" by (rule upt_Suc_append)
  then have "rev [1..<Suc (length g)] = length g # rev [1..<length g]" by simp
  then show ?thesis
    by (simp add: takeWhile_run[OF assms(2,3)] del: upt_Suc)
qed

lemma app_match_of_shape:
  assumes "direct_story_url u digits rest"
  shows "\<exists>m'. js_match u wattpadStoryRegex_App = Some m' \<and> m' 2 = Some digits"
proof -
  from assms have d: "digits \<noteq> []" "list_all is_digit digits" by (simp_all add: direct_story_url_def)
  have nd: "45 # rest = [] \<or> \<not> is_digit (hd (45 # rest))" by (simp add: is_digit_def)
  note g = plus_greedy[OF d nd]
  from assms consider
      "u = str ''http://wattpad.com/story/'' @ digits @ 45 # rest"
    | "u = str ''https://wattpad.com/story/'' @ digits @ 45 # rest"
    | "u = str ''http://www.wattpad.com/story/'' @ digits @ 45 # rest"
    | "u = str ''https://www.wattpad.com/story/'' @ digits @ 45 # rest"
    by (auto simp: direct_story_url_def str_def)
  then show ?thesis
  proof cases
    case 1
    then show ?thesis
      unfolding wattpadStoryRegex_App_def seqs.simps js_match_anchored
      by (simp add: str_def g del: rx_run.simps(5))
  next
    case 2
    then show ?thesis
      unfolding wattpadStoryRegex_App_def seqs.simps js_match_anchored
      by (simp add: str_def g del: rx_run.simps(5))
  next
    case 3
    then show ?thesis
      unfolding wattpadStoryRegex_App_def seqs.simps js_match_anchored
      by (simp add: str_def g del: rx_run.simps(5))
  next
    case 4
    then show ?thesis
      unfolding wattpadStoryRegex_App_def seqs.simps js_match_anchored
      by (simp add: str_def g del: rx_run.simps(5))
  qed
qed

text \<open>Conversely, the pattern of the unnamed files matches every URL of that shape.\<close>

lemma story_match_of_shape:
  assumes "direct_story_url u digits rest"
  shows "\<exists>m. js_match u wattpadStoryRegex = Some m \<and> m 1 = Some digits"
proof -
  from assms have d: "digits \<noteq> []" "list_all is_digit digits" by (simp_all add: direct_story_url_def)
  have nd: "45 # rest = [] \<or> \<not> is_digit (hd (45 # rest))" by (simp add: is_digit_def)
  note g = plus_greedy[OF d nd]
  from assms consider
      "u = str ''http://wattpad.com/story/'' @ digits @ 45 # rest"
    | "u = str ''https://wattpad.com/story/'' @ digits @ 45 # rest"
    | "u = str ''http://www.wattpad.com/story/'' @ digits @ 45 # rest"
    | "u = str ''https://www.wattpad.com/story/'' @ digits @ 45 # rest"
    by (auto simp: direct_story_url_def str_def)
  then show ?thesis
  proof cases
    case 1
    then show ?thesis
      unfolding wattpadStoryRegex_def seqs.simps js_match_anchored
      by (simp add: str_def g del: rx_run.simps(5))
  next
    case 2
    then show ?thesis
      unfolding wattpadStoryRegex_def seqs.simps js_match_anchored
      by (simp add: str_def g del: rx_run.simps(5))
  next
    case 3
    then show ?thesis
      unfolding wattpadStoryRegex_def seqs.simps js_match_anchored
      by (simp add: str_def g del: rx_run.simps(5))
  next
    case 4
    then show ?thesis
      unfolding wattpadStoryRegex_def seqs.simps js_match_anchored
      by (simp add: str_def g del: rx_run.simps(5))
  qed
qed

text \<open>
  The pattern of popup/App.tsx asks for no hyphen after the digits, so it also matches
  URLs that the pattern of the unnamed files rejects.
\<close>

lemma app_pattern_without_hyphen:
  "js_match (str ''https://www.wattpad.com/story/123'') wattpadStoryRegex = None"
  "js_match (str ''https://www.wattpad.com/story/123'') wattpadStoryPartRegex = None"
  "js_match (str ''https://www.wattpad.com/story/123'') wattpadStoryRegex_App
     = Some [1 \<mapsto> str ''www.'', 2 \<mapsto> str ''123'',
             0 \<mapsto> str ''https://www.wattpad.com/story/123'']"
  by (simp_all add: js_match_def wattpadStoryRegex_def wattpadStoryPartRegex_def
        wattpadStoryRegex_App_def str_def is_digit_def is_dot_def)


subsection \<open>The classifier, branch by branch\<close>

lemmas io_defs =
  bind_io_def emit_def await_def ret_def throw_def try_catch_def catch_value_def to_run_def

lemma story_group:
  assumes "js_match u wattpadStoryRegex = Some m"
  obtains digits where "m 1 = Some digits" "digits \<noteq> []" "list_all is_digit digits"
  using js_match_captures[OF story_captures _ assms] by auto

lemma part_group:
  assumes "js_match u wattpadStoryPartRegex = Some m"
  obtains digits where "m 1 = Some digits" "digits \<noteq> []" "list_all is_digit digits"
  using js_match_captures[OF part_captures _ assms] by auto

lemma app_group:
  assumes "js_match u wattpadStoryRegex_App = Some m"
  obtains digits where "m 2 = Some digits" "digits \<noteq> []" "list_all is_digit digits"
  using js_match_captures[OF app_captures _ assms] by auto

lemma checkUrl_direct:
  assumes "chrome_tabs h = Some (Resolved tabs)"
    and "js_match (active_url tabs) wattpadStoryRegex = Some m"
    and "m 1 = Some digits" "digits \<noteq> []"
  shows "checkUrl brand h st =
     \<lparr>final = st\<lparr>isValidPage := Some True, storyId := JStr digits\<rparr>,
      trace = [TabsQuery,
               Console Log [LStr ([9989] @ str '' Direct Story URL found. Story ID:''), LStr digits]],
      outcome = Finished\<rparr>"
  using assms by (simp add: checkUrl_def group_truthy_def match_group_def io_defs)

lemma checkUrl_App_direct:
  assumes "chrome_tabs h = Some (Resolved tabs)"
    and "js_match (active_url tabs) wattpadStoryRegex_App = Some m"
    and "m 2 = Some digits" "digits \<noteq> []"
  shows "checkUrl_App h st =
     \<lparr>final = st\<lparr>isValidPage := Some True, storyId := JStr digits\<rparr>,
      trace = [TabsQuery], outcome = Finished\<rparr>"
  using assms by (simp add: checkUrl_App_def group_truthy_def match_group_def io_defs)

lemma checkUrl_other:
  assumes "chrome_tabs h = Some (Resolved tabs)"
    and "js_match (active_url tabs) wattpadStoryRegex = None"
    and "js_match (active_url tabs) wattpadStoryPartRegex = None"
  shows "checkUrl brand h st =
     \<lparr>final = st\<lparr>isValidPage := Some False\<rparr>, trace = [TabsQuery], outcome = Finished\<rparr>"
  using assms by (simp add: checkUrl_def group_truthy_def io_defs)

lemma checkUrl_App_other:
  assumes "chrome_tabs h = Some (Resolved tabs)"
    and "js_match (active_url tabs) wattpadStoryRegex_App = None"
  shows "checkUrl_App h st =
     \<lparr>final = st\<lparr>isValidPage := Some False\<rparr>, trace = [TabsQuery], outcome = Finished\<rparr>"
  using assms by (simp add: checkUrl_App_def group_truthy_def io_defs)

lemma checkUrl_part:
  assumes "chrome_tabs h = Some (Resolved tabs)"
    and "js_match (active_url tabs) wattpadStoryRegex = None"
    and "js_match (active_url tabs) wattpadStoryPartRegex = Some m"
    and "m 1 = Some partId" "partId \<noteq> []"
  shows "checkUrl brand h st =
     (case resolve_part brand h st (part_request_url partId) of
        (Done st', t) \<Rightarrow> \<lparr>final = st', trace = part_prefix partId @ t, outcome = Finished\<rparr>
      | (Thrown e, t) \<Rightarrow>
          \<lparr>final = st\<lparr>isValidPage := Some False\<rparr>,
           trace = part_prefix partId @ t
                   @ [Console Err [LStr (str ''Failed to resolve story part ID:''), LErr e]],
           outcome = Finished\<rparr>
      | (Hung, t) \<Rightarrow> \<lparr>final = st, trace = part_prefix partId @ t, outcome = Suspended\<rparr>)"
  using assms
  by (simp add: checkUrl_def group_truthy_def match_group_def io_defs Let_def part_prefix_def
           split: prod.splits res.splits)

lemma fetches_append: "fetches (xs @ ys) = fetches xs @ fetches ys"
  by (induction xs rule: fetches.induct) auto

lemma fetches_part_prefix: "fetches (part_prefix partId) = []"
  by (simp add: part_prefix_def)

text \<open>Whatever the lookup does, it makes one request.\<close>

lemma resolve_part_fetches:
  "fetches (snd (resolve_part brand h st u)) = [part_request h u]"
  by (simp add: resolve_part_def io_defs split: settled.splits prod.splits res.splits option.splits)

lemma checkUrl_part_fetches:
  assumes "chrome_tabs h = Some (Resolved tabs)"
    and "js_match (active_url tabs) wattpadStoryRegex = None"
    and "js_match (active_url tabs) wattpadStoryPartRegex = Some m"
    and "m 1 = Some partId" "partId \<noteq> []"
  shows "fetches (trace (checkUrl brand h st)) = [part_request h (part_request_url partId)]"
proof -
  obtain r t where rt: "resolve_part brand h st (part_request_url partId) = (r, t)"
    by (cases "resolve_part brand h st (part_request_url partId)")
  then have "fetches t = [part_request h (part_request_url partId)]"
    using resolve_part_fetches[of brand h st "part_request_url partId"] by simp
  then show ?thesis
    by (cases r) (simp_all add: checkUrl_part[OF assms] rt fetches_append fetches_part_prefix)
qed

lemma get_prop_truthy: "get_prop data k = Some v \<Longrightarrow> truthy data"
  by (cases data) simp_all

lemma resolve_part_group:
  assumes "fetch h (part_request h u) = Resolved response" "ok response"
    and "json response = Resolved data"
    and "get_prop data (str ''groupId'') = Some groupId"
  shows "resolve_part brand h st u =
     (Done (if truthy groupId then st\<lparr>isValidPage := Some True, storyId := groupId\<rparr>
            else st\<lparr>isValidPage := Some False\<rparr>),
      [Fetch (part_request h u),
       Console Log [LStr (str brand @ str '' API Success Response:''), LVal data]])"
  using assms get_prop_truthy[OF assms(4)] by (simp add: resolve_part_def io_defs)

lemma resolve_part_no_group:
  assumes "lookup_gives_no_group (fetch h (part_request h u))"
  shows "(\<exists>t. resolve_part brand h st u = (Done (st\<lparr>isValidPage := Some False\<rparr>), t))
       \<or> (\<exists>e t. resolve_part brand h st u = (Thrown e, t))"
  using assms
  by (auto simp: lookup_gives_no_group_def resolve_part_def io_defs
           split: settled.splits if_splits)


subsection \<open>Claims about the classifier\<close>

text \<open>
  C3. For every tab URL that matches the direct-story pattern, the classifier sets the
  page valid and the story id to the digits the pattern captured, and makes no network
  call; the run ends. This holds for the classifier of the unnamed files and for the one
  of popup/App.tsx, whose own pattern accepts every such URL with the same digits.
\<close>

theorem direct_story_classified_valid:
  assumes "chrome_tabs h = Some (Resolved tabs)"
    and "js_match (active_url tabs) wattpadStoryRegex = Some m"
  shows "\<exists>digits. m 1 = Some digits \<and> digits \<noteq> [] \<and> list_all is_digit digits \<and>
           final (checkUrl brand h st) = st\<lparr>isValidPage := Some True, storyId := JStr digits\<rparr> \<and>
           fetches (trace (checkUrl brand h st)) = [] \<and>
           outcome (checkUrl brand h st) = Finished \<and>
           final (checkUrl_App h st) = st\<lparr>isValidPage := Some True, storyId := JStr digits\<rparr> \<and>
           fetches (trace (checkUrl_App h st)) = [] \<and>
           outcome (checkUrl_App h st) = Finished"
proof -
  from story_shape[OF assms(2)] obtain digits rest where
    shape: "direct_story_url (active_url tabs) digits rest" and g: "m 1 = Some digits"
    by blast
  from shape have d: "digits \<noteq> []" "list_all is_digit digits"
    by (simp_all add: direct_story_url_def)
  from app_match_of_shape[OF shape] obtain m' where
    m': "js_match (active_url tabs) wattpadStoryRegex_App = Some m'" "m' 2 = Some digits"
    by blast
  have "checkUrl brand h st =
     \<lparr>final = st\<lparr>isValidPage := Some True, storyId := JStr digits\<rparr>,
      trace = [TabsQuery,
               Console Log [LStr ([9989] @ str '' Direct Story URL found. Story ID:''), LStr digits]],
      outcome = Finished\<rparr>"
    using assms g d(1) by (rule checkUrl_direct)
  moreover have "checkUrl_App h st =
     \<lparr>final = st\<lparr>isValidPage := Some True, storyId := JStr digits\<rparr>,
      trace = [TabsQuery], outcome = Finished\<rparr>"
    using assms(1) m' d(1) by (rule checkUrl_App_direct)
  ultimately show ?thesis using g d by simp
qed

text \<open>In the words of the claim: every URL of the direct-story shape is classified valid.\<close>

lemma direct_story_shape_valid:
  assumes "chrome_tabs h = Some (Resolved tabs)"
    and "direct_story_url (active_url tabs) digits rest"
  shows "final (checkUrl brand h st) = st\<lparr>isValidPage := Some True, storyId := JStr digits\<rparr>"
    and "fetches (trace (checkUrl brand h st)) = []"
proof -
  from story_match_of_shape[OF assms(2)] obtain m where
    m: "js_match (active_url tabs) wattpadStoryRegex = Some m" "m 1 = Some digits"
    by blast
  from assms(2) have "digits \<noteq> []" by (simp add: direct_story_url_def)
  with assms(1) m have run: "checkUrl brand h st =
     \<lparr>final = st\<lparr>isValidPage := Some True, storyId := JStr digits\<rparr>,
      trace = [TabsQuery,
               Console Log [LStr ([9989] @ str '' Direct Story URL found. Story ID:''), LStr digits]],
      outcome = Finished\<rparr>"
    by (rule checkUrl_direct)
  show "final (checkUrl brand h st) = st\<lparr>isValidPage := Some True, storyId := JStr digits\<rparr>"
    by (simp add: run)
  show "fetches (trace (checkUrl brand h st)) = []"
    by (simp add: run)
qed

lemma story_url_matches:
  "js_match (str ''https://www.wattpad.com/story/999-my-tale'') wattpadStoryRegex
     = Some [1 \<mapsto> str ''999'', 0 \<mapsto> str ''https://www.wattpad.com/story/999-my-tale'']"
  by (simp add: js_match_def wattpadStoryRegex_def str_def is_digit_def is_dot_def)

theorem direct_story_classified_valid_witness:
  "final (checkUrl ''WP'' story_host initial_state)
     = initial_state\<lparr>isValidPage := Some True, storyId := JStr (str ''999'')\<rparr> \<and>
   fetches (trace (checkUrl ''WP'' story_host initial_state)) = [] \<and>
   final (checkUrl_App story_host initial_state)
     = initial_state\<lparr>isValidPage := Some True, storyId := JStr (str ''999'')\<rparr> \<and>
   fetches (trace (checkUrl_App story_host initial_state)) = []"
proof -
  have tabs: "chrome_tabs story_host
      = Some (Resolved [\<lparr>url = Some (str ''https://www.wattpad.com/story/999-my-tale'')\<rparr>])"
    by (simp add: story_host_def)
  have m: "js_match (active_url [\<lparr>url = Some (str ''https://www.wattpad.com/story/999-my-tale'')\<rparr>])
             wattpadStoryRegex
           = Some [1 \<mapsto> str ''999'', 0 \<mapsto> str ''https://www.wattpad.com/story/999-my-tale'']"
    using story_url_matches by (simp add: active_url_def)
  from direct_story_classified_valid[OF tabs m, where brand = "''WP''" and st = initial_state]
  show ?thesis by auto
qed

text \<open>
  C4, as amended. In the files that have the story-chapter pattern: for every tab URL that
  matches it and not the direct-story pattern, the classifier makes exactly one lookup
  call, to the chapter endpoint with the captured id; and if the lookup succeeds with a
  truthy \<open>groupId\<close>, the page is valid and the story id is that \<open>groupId\<close>.
\<close>

theorem chapter_lookup_once_and_valid:
  assumes "chrome_tabs h = Some (Resolved tabs)"
    and "js_match (active_url tabs) wattpadStoryRegex = None"
    and "js_match (active_url tabs) wattpadStoryPartRegex = Some m"
  shows "\<exists>partId. m 1 = Some partId \<and> partId \<noteq> [] \<and> list_all is_digit partId \<and>
           fetches (trace (checkUrl brand h st)) = [part_request h (part_request_url partId)] \<and>
           (\<forall>response data groupId.
              fetch h (part_request h (part_request_url partId)) = Resolved response \<and>
              ok response \<and> json response = Resolved data \<and>
              get_prop data (str ''groupId'') = Some groupId \<and> truthy groupId
              \<longrightarrow> final (checkUrl brand h st) = st\<lparr>isValidPage := Some True, storyId := groupId\<rparr>
                  \<and> outcome (checkUrl brand h st) = Finished)"
proof -
  from part_group[OF assms(3)] obtain partId where
    g: "m 1 = Some partId" "partId \<noteq> []" "list_all is_digit partId"
    by blast
  note branch = checkUrl_part[OF assms g(1,2)]
  have one: "fetches (trace (checkUrl brand h st)) = [part_request h (part_request_url partId)]"
    using assms g(1,2) by (rule checkUrl_part_fetches)
  have valid: "final (checkUrl brand h st) = st\<lparr>isValidPage := Some True, storyId := groupId\<rparr>
               \<and> outcome (checkUrl brand h st) = Finished"
    if "fetch h (part_request h (part_request_url partId)) = Resolved response" "ok response"
       "json response = Resolved data" "get_prop data (str ''groupId'') = Some groupId"
       "truthy groupId"
    for response data groupId
    using that(5) by (simp add: branch resolve_part_group[OF that(1-4)])
  show ?thesis using g one valid by blast
qed

lemma chapter_url_no_story:
  "js_match (str ''https://www.wattpad.com/555'') wattpadStoryRegex = None"
  by (simp add: js_match_def wattpadStoryRegex_def str_def is_digit_def is_dot_def)

lemma chapter_url_matches:
  "js_match (str ''https://www.wattpad.com/555'') wattpadStoryPartRegex = Some chapter_match"
  by (simp add: js_match_def wattpadStoryPartRegex_def str_def is_digit_def chapter_match_def)

lemma chapter_host_facts:
  "chrome_tabs (chapter_host answer) = Some (Resolved chapter_tabs)"
  "active_url chapter_tabs = str ''https://www.wattpad.com/555''"
  "fetch (chapter_host answer) q = answer"
  by (simp_all add: chapter_host_def story_host_def chapter_tabs_def active_url_def)

lemma chapter_match_group: "chapter_match 1 = Some (str ''555'')" "str ''555'' \<noteq> []"
  by (simp_all add: chapter_match_def str_def)

lemma chapter_url_facts:
  "js_match (active_url chapter_tabs) wattpadStoryRegex = None"
  "js_match (active_url chapter_tabs) wattpadStoryPartRegex = Some chapter_match"
  using chapter_url_no_story chapter_url_matches by (simp_all add: chapter_host_facts)

lemma group_host_facts:
  "chrome_tabs (group_host v) = Some (Resolved chapter_tabs)"
  "fetch (group_host v) q = Resolved (json_response (JObj [(str ''groupId'', v)]))"
  "part_request (group_host v) (part_request_url (str ''555''))
     = Get (str ''https://www.wattpad.com/api/v3/story_parts/555?fields=groupId'')
         [(str ''User-Agent'', str ''UA'')]"
  by (simp_all add: group_host_def chapter_host_def story_host_def part_request_def
        part_request_url_def str_def)

lemma json_response_facts:
  "ok (json_response data)" "json (json_response data) = Resolved data"
  by (simp_all add: json_response_def epub_response_def)

text \<open>The scenario of the specification: the lookup for chapter 555 answers group 999.\<close>

theorem chapter_lookup_once_and_valid_witness:
  "fetches (trace (checkUrl ''WP'' (group_host (JNum 999)) initial_state))
     = [Get (str ''https://www.wattpad.com/api/v3/story_parts/555?fields=groupId'')
          [(str ''User-Agent'', str ''UA'')]] \<and>
   final (checkUrl ''WP'' (group_host (JNum 999)) initial_state)
     = initial_state\<lparr>isValidPage := Some True, storyId := JNum 999\<rparr>"
proof -
  let ?h = "group_host (JNum 999)"
  from chapter_lookup_once_and_valid[OF group_host_facts(1) chapter_url_facts,
         where brand = "''WP''" and st = initial_state and v1 = "JNum 999"]
  obtain partId where p: "chapter_match 1 = Some partId"
    and one: "fetches (trace (checkUrl ''WP'' ?h initial_state)) = [part_request ?h (part_request_url partId)]"
    and valid: "\<And>response data groupId.
              fetch ?h (part_request ?h (part_request_url partId)) = Resolved response \<Longrightarrow>
              ok response \<Longrightarrow> json response = Resolved data \<Longrightarrow>
              get_prop data (str ''groupId'') = Some groupId \<Longrightarrow> truthy groupId
              \<Longrightarrow> final (checkUrl ''WP'' ?h initial_state)
                    = initial_state\<lparr>isValidPage := Some True, storyId := groupId\<rparr>"
    by blast
  from p have partId: "partId = str ''555''" using chapter_match_group(1) by simp
  have "final (checkUrl ''WP'' ?h initial_state)
      = initial_state\<lparr>isValidPage := Some True, storyId := JNum 999\<rparr>"
    by (rule valid[of "json_response (JObj [(str ''groupId'', JNum 999)])"
                      "JObj [(str ''groupId'', JNum 999)]" "JNum 999"])
       (simp_all add: group_host_facts json_response_facts)
  then show ?thesis using one by (simp add: partId group_host_facts)
qed

text \<open>
  C4 as stated fails: the lookup succeeds and the body has a \<open>groupId\<close> property, with the
  value 0, and the page is classified invalid.
\<close>

theorem chapter_group_zero_counterexample:
  "js_match (active_url chapter_tabs) wattpadStoryRegex = None \<and>
   js_match (active_url chapter_tabs) wattpadStoryPartRegex = Some chapter_match \<and>
   chrome_tabs (group_host (JNum 0)) = Some (Resolved chapter_tabs) \<and>
   fetch (group_host (JNum 0)) (part_request (group_host (JNum 0)) (part_request_url (str ''555'')))
     = Resolved (json_response (JObj [(str ''groupId'', JNum 0)])) \<and>
   ok (json_response (JObj [(str ''groupId'', JNum 0)])) \<and>
   json (json_response (JObj [(str ''groupId'', JNum 0)])) = Resolved (JObj [(str ''groupId'', JNum 0)]) \<and>
   get_prop (JObj [(str ''groupId'', JNum 0)]) (str ''groupId'') = Some (JNum 0) \<and>
   final (checkUrl ''WP'' (group_host (JNum 0)) initial_state)
     = initial_state\<lparr>isValidPage := Some False\<rparr>"
proof -
  let ?h = "group_host (JNum 0)"
  have "resolve_part ''WP'' ?h initial_state (part_request_url (str ''555'')) =
     (Done (if truthy (JNum 0) then initial_state\<lparr>isValidPage := Some True, storyId := JNum 0\<rparr>
            else initial_state\<lparr>isValidPage := Some False\<rparr>),
      [Fetch (part_request ?h (part_request_url (str ''555''))),
       Console Log [LStr (str ''WP'' @ str '' API Success Response:''),
                    LVal (JObj [(str ''groupId'', JNum 0)])]])"
    by (rule resolve_part_group[where response = "json_response (JObj [(str ''groupId'', JNum 0)])"])
       (simp_all add: group_host_facts(1,2) json_response_facts)
  then have "final (checkUrl ''WP'' ?h initial_state) = initial_state\<lparr>isValidPage := Some False\<rparr>"
    by (simp add: checkUrl_part[OF group_host_facts(1) chapter_url_facts chapter_match_group])
  then show ?thesis
    using chapter_url_facts by (simp add: group_host_facts(1,2) json_response_facts)
qed


text \<open>
  A lookup that never answers leaves the page unclassified: no call of the source has a
  timeout.
\<close>

lemma pending_lookup_leaves_unknown:
  assumes "chrome_tabs h = Some (Resolved tabs)"
    and "js_match (active_url tabs) wattpadStoryRegex = None"
    and "js_match (active_url tabs) wattpadStoryPartRegex = Some m"
    and "m 1 = Some partId"
    and "fetch h (part_request h (part_request_url partId)) = Pending"
  shows "final (checkUrl brand h st) = st \<and> outcome (checkUrl brand h st) = Suspended"
proof -
  from part_group[OF assms(3)] assms(4) have ne: "partId \<noteq> []" by auto
  show ?thesis
    using assms(5) by (simp add: checkUrl_part[OF assms(1-4) ne] resolve_part_def io_defs)
qed

text \<open>
  C5. For every chapter URL whose lookup fails (the request rejects; the status is not a
  success, the reading of the error body having ended either way; the body is not JSON) or
  succeeds without a \<open>groupId\<close> property, the page is classified invalid, the run ends,
  and the lookup was made once and not again.
\<close>

theorem failed_lookup_classified_invalid:
  assumes "chrome_tabs h = Some (Resolved tabs)"
    and "js_match (active_url tabs) wattpadStoryRegex = None"
    and "js_match (active_url tabs) wattpadStoryPartRegex = Some m"
    and "m 1 = Some partId"
    and "lookup_gives_no_group (fetch h (part_request h (part_request_url partId)))"
  shows "final (checkUrl brand h st) = st\<lparr>isValidPage := Some False\<rparr> \<and>
         outcome (checkUrl brand h st) = Finished \<and>
         fetches (trace (checkUrl brand h st)) = [part_request h (part_request_url partId)]"
proof -
  from part_group[OF assms(3)] assms(4) have ne: "partId \<noteq> []" by auto
  note branch = checkUrl_part[OF assms(1-4) ne]
  have one: "fetches (trace (checkUrl brand h st)) = [part_request h (part_request_url partId)]"
    using assms(1-4) ne by (rule checkUrl_part_fetches)
  from resolve_part_no_group[OF assms(5), of brand st]
  have "final (checkUrl brand h st) = st\<lparr>isValidPage := Some False\<rparr> \<and>
        outcome (checkUrl brand h st) = Finished"
    by (auto simp: branch)
  then show ?thesis using one by simp
qed

text \<open>
  The four ways of C5 at the chapter URL \<open>https://www.wattpad.com/555\<close>: the request
  rejects, the status is 404, the body is not JSON, the body is \<^verbatim>\<open>{}\<close>.
\<close>

theorem failed_lookup_classified_invalid_witness:
  "final (checkUrl ''WP'' lookup_rejected_host initial_state) = initial_state\<lparr>isValidPage := Some False\<rparr> \<and>
   fetches (trace (checkUrl ''WP'' lookup_rejected_host initial_state))
     = [part_request lookup_rejected_host (part_request_url (str ''555''))] \<and>
   final (checkUrl ''WP'' lookup_404_host initial_state) = initial_state\<lparr>isValidPage := Some False\<rparr> \<and>
   fetches (trace (checkUrl ''WP'' lookup_404_host initial_state))
     = [part_request lookup_404_host (part_request_url (str ''555''))] \<and>
   final (checkUrl ''WP'' lookup_not_json_host initial_state) = initial_state\<lparr>isValidPage := Some False\<rparr> \<and>
   fetches (trace (checkUrl ''WP'' lookup_not_json_host initial_state))
     = [part_request lookup_not_json_host (part_request_url (str ''555''))] \<and>
   final (checkUrl ''WP'' lookup_empty_host initial_state) = initial_state\<lparr>isValidPage := Some False\<rparr> \<and>
   fetches (trace (checkUrl ''WP'' lookup_empty_host initial_state))
     = [part_request lookup_empty_host (part_request_url (str ''555''))]"
proof -
  note inst = failed_lookup_classified_invalid[OF chapter_host_facts(1) chapter_url_facts
      chapter_match_group(1), where brand = "''WP''" and st = initial_state]
  have 1: "lookup_gives_no_group (fetch (chapter_host (Rejected (TypeError (str ''Failed to fetch''))))
             (part_request (chapter_host (Rejected (TypeError (str ''Failed to fetch''))))
                (part_request_url (str ''555''))))"
    by (simp add: chapter_host_facts lookup_gives_no_group_def)
  have 2: "lookup_gives_no_group
             (fetch (chapter_host (Resolved (epub_response\<lparr>ok := False, status := 404, statusText := str ''Not Found''\<rparr>)))
             (part_request (chapter_host (Resolved (epub_response\<lparr>ok := False, status := 404, statusText := str ''Not Found''\<rparr>)))
                (part_request_url (str ''555''))))"
    by (simp add: chapter_host_facts lookup_gives_no_group_def epub_response_def)
  have 3: "lookup_gives_no_group (fetch (chapter_host (Resolved epub_response))
             (part_request (chapter_host (Resolved epub_response)) (part_request_url (str ''555''))))"
    by (simp add: chapter_host_facts lookup_gives_no_group_def epub_response_def)
  have 4: "lookup_gives_no_group (fetch (chapter_host (Resolved (json_response (JObj []))))
             (part_request (chapter_host (Resolved (json_response (JObj []))))
                (part_request_url (str ''555''))))"
    by (simp add: chapter_host_facts lookup_gives_no_group_def json_response_def epub_response_def)
  show ?thesis
    unfolding lookup_rejected_host_def lookup_404_host_def lookup_not_json_host_def
      lookup_empty_host_def
    using inst[OF 1] inst[OF 2] inst[OF 3] inst[OF 4] by simp
qed

text \<open>The classifier of popup/App.tsx has no lookup: it never makes a network call.\<close>

lemma checkUrl_App_never_fetches:
  "fetches (trace (checkUrl_App h st)) = []"
  by (simp add: checkUrl_App_def io_defs Let_def split: option.splits settled.splits)

text \<open>
  C6, as amended. In the unnamed files, every tab URL that matches neither the
  direct-story pattern nor the story-chapter pattern is classified invalid and no network
  call is made. In popup/App.tsx, whose single pattern is \<open>/story/<digits>\<close> with no hyphen
  asked for, every tab URL that this pattern does not match is classified invalid, and
  its classification makes no network call for any URL.
\<close>

theorem other_url_classified_invalid:
  assumes "chrome_tabs h = Some (Resolved tabs)"
  shows "(js_match (active_url tabs) wattpadStoryRegex = None \<and>
          js_match (active_url tabs) wattpadStoryPartRegex = None \<longrightarrow>
            final (checkUrl brand h st) = st\<lparr>isValidPage := Some False\<rparr> \<and>
            fetches (trace (checkUrl brand h st)) = [] \<and>
            outcome (checkUrl brand h st) = Finished) \<and>
         (js_match (active_url tabs) wattpadStoryRegex_App = None \<longrightarrow>
            final (checkUrl_App h st) = st\<lparr>isValidPage := Some False\<rparr> \<and>
            fetches (trace (checkUrl_App h st)) = [] \<and>
            outcome (checkUrl_App h st) = Finished) \<and>
         fetches (trace (checkUrl_App h st)) = []"
  using assms by (simp add: checkUrl_other checkUrl_App_other checkUrl_App_never_fetches)

lemma search_url_no_match:
  "js_match (str ''https://www.wattpad.com/search/999'') wattpadStoryRegex = None"
  "js_match (str ''https://www.wattpad.com/search/999'') wattpadStoryPartRegex = None"
  "js_match (str ''https://www.wattpad.com/search/999'') wattpadStoryRegex_App = None"
  by (simp_all add: js_match_def wattpadStoryRegex_def wattpadStoryPartRegex_def
        wattpadStoryRegex_App_def str_def is_digit_def is_dot_def)

theorem other_url_classified_invalid_witness:
  "final (checkUrl ''WP''
            (story_host\<lparr>chrome_tabs := Some (Resolved [\<lparr>url = Some (str ''https://www.wattpad.com/search/999'')\<rparr>])\<rparr>)
            initial_state)
     = initial_state\<lparr>isValidPage := Some False\<rparr> \<and>
   fetches (trace (checkUrl ''WP''
            (story_host\<lparr>chrome_tabs := Some (Resolved [\<lparr>url = Some (str ''https://www.wattpad.com/search/999'')\<rparr>])\<rparr>)
            initial_state)) = [] \<and>
   final (checkUrl_App
            (story_host\<lparr>chrome_tabs := Some (Resolved [\<lparr>url = Some (str ''https://www.wattpad.com/search/999'')\<rparr>])\<rparr>)
            initial_state)
     = initial_state\<lparr>isValidPage := Some False\<rparr> \<and>
   fetches (trace (checkUrl_App
            (story_host\<lparr>chrome_tabs := Some (Resolved [\<lparr>url = Some (str ''https://www.wattpad.com/search/999'')\<rparr>])\<rparr>)
            initial_state)) = []"
proof -
  let ?tabs = "[\<lparr>url = Some (str ''https://www.wattpad.com/search/999'')\<rparr>]"
  let ?h = "story_host\<lparr>chrome_tabs := Some (Resolved ?tabs)\<rparr>"
  have tabs: "chrome_tabs ?h = Some (Resolved ?tabs)" by simp
  have u: "active_url ?tabs = str ''https://www.wattpad.com/search/999''"
    by (simp add: active_url_def)
  from other_url_classified_invalid[OF tabs, where brand = "''WP''" and st = initial_state]
  show ?thesis using search_url_no_match by (simp add: u)
qed

text \<open>
  C6 as stated fails in popup/App.tsx: \<open>https://www.wattpad.com/story/123\<close> matches
  neither the direct-story pattern (no hyphen follows the digits) nor the story-chapter
  pattern, and the page is classified valid with the story id 123.
\<close>

theorem app_story_without_hyphen_counterexample:
  "chrome_tabs hyphenless_host = Some (Resolved hyphenless_tabs) \<and>
   js_match (active_url hyphenless_tabs) wattpadStoryRegex = None \<and>
   js_match (active_url hyphenless_tabs) wattpadStoryPartRegex = None \<and>
   final (checkUrl_App hyphenless_host initial_state)
     = initial_state\<lparr>isValidPage := Some True, storyId := JStr (str ''123'')\<rparr>"
proof -
  have tabs: "chrome_tabs hyphenless_host = Some (Resolved hyphenless_tabs)"
    by (simp add: hyphenless_host_def)
  have u: "active_url hyphenless_tabs = str ''https://www.wattpad.com/story/123''"
    by (simp add: hyphenless_tabs_def active_url_def)
  have m: "js_match (active_url hyphenless_tabs) wattpadStoryRegex_App
             = Some [1 \<mapsto> str ''www.'', 2 \<mapsto> str ''123'',
                     0 \<mapsto> str ''https://www.wattpad.com/story/123'']"
    using app_pattern_without_hyphen(3) by (simp add: u)
  have g: "([1 \<mapsto> str ''www.'', 2 \<mapsto> str ''123'',
             0 \<mapsto> str ''https://www.wattpad.com/story/123''] :: nat \<rightharpoonup> ustr) 2
           = Some (str ''123'')"
    by simp
  have ne: "str ''123'' \<noteq> []" by (simp add: str_def)
  have "checkUrl_App hyphenless_host initial_state =
     \<lparr>final = initial_state\<lparr>isValidPage := Some True, storyId := JStr (str ''123'')\<rparr>,
      trace = [TabsQuery], outcome = Finished\<rparr>"
    using tabs m g ne by (rule checkUrl_App_direct)
  then show ?thesis
    using tabs app_pattern_without_hyphen(1,2) by (simp add: u)
qed

text \<open>
  C10. If the lookup succeeds and the body has a \<open>groupId\<close> property whose value is falsy
  (0, the empty string, null, false), the page is classified invalid, and the state is the
  one a lookup whose body has no \<open>groupId\<close> property leaves.
\<close>

theorem falsy_group_classified_invalid:
  assumes "chrome_tabs h = Some (Resolved tabs)" and "chrome_tabs h' = Some (Resolved tabs)"
    and "js_match (active_url tabs) wattpadStoryRegex = None"
    and "js_match (active_url tabs) wattpadStoryPartRegex = Some m"
    and "m 1 = Some partId"
    and "fetch h (part_request h (part_request_url partId)) = Resolved response"
    and "ok response" and "json response = Resolved data"
    and "get_prop data (str ''groupId'') = Some groupId" and "\<not> truthy groupId"
    and "fetch h' (part_request h' (part_request_url partId)) = Resolved response'"
    and "ok response'" and "json response' = Resolved data'"
    and "get_prop data' (str ''groupId'') = None"
  shows "final (checkUrl brand h st) = st\<lparr>isValidPage := Some False\<rparr> \<and>
         outcome (checkUrl brand h st) = Finished \<and>
         final (checkUrl brand h st) = final (checkUrl brand h' st)"
proof -
  from part_group[OF assms(4)] assms(5) have ne: "partId \<noteq> []" by auto
  have "final (checkUrl brand h st) = st\<lparr>isValidPage := Some False\<rparr> \<and>
        outcome (checkUrl brand h st) = Finished"
    using assms(10)
    by (simp add: checkUrl_part[OF assms(1,3,4,5) ne] resolve_part_group[OF assms(6-9)])
  moreover have "lookup_gives_no_group (fetch h' (part_request h' (part_request_url partId)))"
    using assms(11-14) by (simp add: lookup_gives_no_group_def)
  then have "final (checkUrl brand h' st) = st\<lparr>isValidPage := Some False\<rparr>"
    using resolve_part_no_group[of h' "part_request_url partId" brand st]
    by (auto simp: checkUrl_part[OF assms(2,3,4,5) ne])
  ultimately show ?thesis by simp
qed

text \<open>The bodies \<^verbatim>\<open>{"groupId": 0}\<close>, \<^verbatim>\<open>{"groupId": ""}\<close> and \<^verbatim>\<open>{"groupId": null}\<close> against \<^verbatim>\<open>{}\<close>.\<close>

theorem falsy_group_classified_invalid_witness:
  "final (checkUrl ''WP'' (group_host (JNum 0)) initial_state) = initial_state\<lparr>isValidPage := Some False\<rparr> \<and>
   final (checkUrl ''WP'' (group_host (JNum 0)) initial_state)
     = final (checkUrl ''WP'' lookup_empty_host initial_state) \<and>
   final (checkUrl ''WP'' (group_host (JStr [])) initial_state) = initial_state\<lparr>isValidPage := Some False\<rparr> \<and>
   final (checkUrl ''WP'' (group_host (JStr [])) initial_state)
     = final (checkUrl ''WP'' lookup_empty_host initial_state) \<and>
   final (checkUrl ''WP'' (group_host JNull) initial_state) = initial_state\<lparr>isValidPage := Some False\<rparr> \<and>
   final (checkUrl ''WP'' (group_host JNull) initial_state)
     = final (checkUrl ''WP'' lookup_empty_host initial_state)"
proof -
  have falsy:
       "final (checkUrl ''WP'' (group_host v) initial_state)
          = initial_state\<lparr>isValidPage := Some False\<rparr> \<and>
        outcome (checkUrl ''WP'' (group_host v) initial_state) = Finished \<and>
        final (checkUrl ''WP'' (group_host v) initial_state)
          = final (checkUrl ''WP'' lookup_empty_host initial_state)"
    if "\<not> truthy v" for v
    unfolding group_host_def lookup_empty_host_def
    by (rule falsy_group_classified_invalid[OF chapter_host_facts(1) chapter_host_facts(1)
          chapter_url_facts chapter_match_group(1),
          where response = "json_response (JObj [(str ''groupId'', v)])"
            and data = "JObj [(str ''groupId'', v)]" and groupId = v
            and response' = "json_response (JObj [])" and data' = "JObj []"])
       (simp_all add: chapter_host_facts json_response_def epub_response_def that)
  have "\<not> truthy (JNum 0)" "\<not> truthy (JStr [])" "\<not> truthy JNull" by simp_all
  from falsy[OF this(1)] falsy[OF this(2)] falsy[OF this(3)]
  show ?thesis by blast
qed


subsection \<open>The download, branch by branch\<close>

lemma run_download_cases:
  "run_download body h st =
     (case body h st of
        (Done u, t) \<Rightarrow> \<lparr>final = st\<lparr>isLoading := False\<rparr>, trace = t, outcome = Finished\<rparr>
      | (Thrown e, t) \<Rightarrow>
          \<lparr>final = st\<lparr>isLoading := False\<rparr>,
           trace = t @ [Console Err [LStr (str ''Download failed:''), LErr e],
                        Alert download_failed_alert],
           outcome = Finished\<rparr>
      | (Hung, t) \<Rightarrow> \<lparr>final = st\<lparr>isLoading := True\<rparr>, trace = t, outcome = Suspended\<rparr>)"
  by (simp add: run_download_def io_defs Let_def split: prod.splits res.splits)

lemma run_download_idle:
  assumes "outcome (run_download body h st) \<noteq> Suspended"
  shows "final (run_download body h st) = st\<lparr>isLoading := False\<rparr> \<and>
         outcome (run_download body h st) = Finished"
  using assms by (simp add: run_download_cases split: prod.splits res.splits)

text \<open>A run is suspended only where its body is: at an \<open>await\<close> that never settles.\<close>

lemma run_download_suspended:
  "outcome (run_download body h st) = Suspended \<longleftrightarrow> fst (body h st) = Hung"
  by (simp add: run_download_cases split: prod.splits res.splits)

lemma request_epub_settles:
  assumes "cookies_getAll h (str ''wattpad.com'') \<noteq> Pending"
    and "\<And>q. fetch h q \<noteq> Pending"
    and "\<And>q r. fetch h q = Resolved r \<Longrightarrow> json r \<noteq> Pending"
  shows "fst (request_epub ep h st) \<noteq> Hung"
proof (cases "cookies_getAll h (str ''wattpad.com'')")
  case (Resolved cs)
  show ?thesis
  proof (cases "fetch h (epub_request ep st cs)")
    case (Resolved r)
    with assms(3) have "json r \<noteq> Pending" by blast
    then show ?thesis
      using \<open>cookies_getAll h (str ''wattpad.com'') = Resolved cs\<close> Resolved
      by (cases "json r") (simp_all add: request_epub_def io_defs)
  next
    case (Rejected e)
    then show ?thesis
      using \<open>cookies_getAll h (str ''wattpad.com'') = Resolved cs\<close>
      by (simp add: request_epub_def io_defs)
  next
    case Pending
    with assms(2) show ?thesis by blast
  qed
next
  case (Rejected e)
  then show ?thesis by (simp add: request_epub_def io_defs)
next
  case Pending
  with assms(1) show ?thesis by simp
qed

lemma request_epub_response:
  assumes "request_epub ep h st = (Done r, t)"
  shows "\<exists>q. fetch h q = Resolved r"
  using assms
  by (auto simp: request_epub_def io_defs split: settled.splits if_splits)

text \<open>
  Where every awaited call settles, the download that reads Content-Disposition ends:
  no run is left in progress by the code itself.
\<close>

lemma download_disposition_settles:
  assumes "cookies_getAll h (str ''wattpad.com'') \<noteq> Pending"
    and "\<And>q. fetch h q \<noteq> Pending"
    and "\<And>q r. fetch h q = Resolved r \<Longrightarrow> json r \<noteq> Pending"
    and "\<And>q r. fetch h q = Resolved r \<Longrightarrow> blob r \<noteq> Pending"
  shows "outcome (handleDownload_disposition h st) = Finished \<and>
         final (handleDownload_disposition h st) = st\<lparr>isLoading := False\<rparr>"
proof -
  obtain x t where rq: "request_epub (str ''https://crx-0-2-6-novn.shuttle.app/generate-epub'') h st = (x, t)"
    by (cases "request_epub (str ''https://crx-0-2-6-novn.shuttle.app/generate-epub'') h st")
  have "fst (request_epub (str ''https://crx-0-2-6-novn.shuttle.app/generate-epub'') h st) \<noteq> Hung"
    using assms(1-3) by (rule request_epub_settles)
  then have nh: "x \<noteq> Hung" using rq by simp
  have "fst (download_body_disposition h st) \<noteq> Hung"
  proof (cases x)
    case (Done r)
    with rq request_epub_response obtain q where "fetch h q = Resolved r" by blast
    with assms(4) have "blob r \<noteq> Pending" by blast
    then show ?thesis using rq Done
      by (cases "blob r") (simp_all add: download_body_disposition_def io_defs Let_def)
  next
    case (Thrown e)
    then show ?thesis using rq by (simp add: download_body_disposition_def io_defs)
  next
    case Hung
    with nh show ?thesis by simp
  qed
  then have "outcome (handleDownload_disposition h st) \<noteq> Suspended"
    by (simp add: handleDownload_disposition_def run_download_suspended)
  then show ?thesis
    unfolding handleDownload_disposition_def by (simp add: run_download_idle)
qed

text \<open>The same for the other files.\<close>

lemma bind_io_not_hung:
  assumes "fst m \<noteq> Hung" and "\<And>a t. m = (Done a, t) \<Longrightarrow> fst (f a) \<noteq> Hung"
  shows "fst (bind_io m f) \<noteq> Hung"
proof (cases m)
  case (Pair r t)
  show ?thesis
  proof (cases r)
    case (Done a)
    with Pair assms(2)[of a t] show ?thesis
      by (cases "f a") (simp add: bind_io_def)
  next
    case (Thrown e)
    with Pair show ?thesis by (simp add: bind_io_def)
  next
    case Hung
    with Pair assms(1) show ?thesis by simp
  qed
qed

lemma await_not_hung: "p \<noteq> Pending \<Longrightarrow> fst (await p) \<noteq> Hung"
  by (cases p) (simp_all add: await_def)

lemma await_done: "await p = (Done a, t) \<Longrightarrow> p = Resolved a"
  by (cases p) (simp_all add: await_def)

lemma emit_not_hung: "fst (emit e) \<noteq> Hung"
  by (simp add: emit_def)

lemma download_native_settles:
  assumes "cookies_getAll h (str ''wattpad.com'') \<noteq> Pending"
    and "\<And>q. fetch h q \<noteq> Pending"
    and "\<And>q r. fetch h q = Resolved r \<Longrightarrow> json r \<noteq> Pending"
    and "\<And>q r. fetch h q = Resolved r \<Longrightarrow> blob r \<noteq> Pending"
  shows "outcome (handleDownload_native apiEndpoint h st) = Finished \<and>
         final (handleDownload_native apiEndpoint h st) = st\<lparr>isLoading := False\<rparr>"
proof -
  have "fst (download_body_native apiEndpoint h st) \<noteq> Hung"
    unfolding download_body_native_def
  proof (rule bind_io_not_hung)
    show "fst (request_epub apiEndpoint h st) \<noteq> Hung"
      using assms(1-3) by (rule request_epub_settles)
  next
    fix r t
    assume "request_epub apiEndpoint h st = (Done r, t)"
    then obtain q where "fetch h q = Resolved r" using request_epub_response by blast
    with assms(4) have b: "blob r \<noteq> Pending" by blast
    show "fst (bind_io (await (blob r))
            (\<lambda>b. bind_io (emit (CreateObjectURL b))
               (\<lambda>_. let url = createObjectURL h b;
                        filename = str ''story_'' @ js_to_string (number_toString h) (storyId st)
                                   @ str ''.epub''
                    in if chrome_downloads h then emit (DownloadsDownload url filename)
                       else throw (TypeError (str ''chrome.downloads is undefined''))))) \<noteq> Hung"
      using b by (cases "blob r") (simp_all add: io_defs Let_def)
  qed
  then have "outcome (handleDownload_native apiEndpoint h st) \<noteq> Suspended"
    by (simp add: handleDownload_native_def run_download_suspended)
  then show ?thesis
    unfolding handleDownload_native_def by (simp add: run_download_idle)
qed

lemma title_replace_not_hung:
  assumes "\<And>sanitizedTitle. fst (k sanitizedTitle) \<noteq> Hung"
  shows "fst (bind_io (case title of JStr s \<Rightarrow> ret (sanitize s) | _ \<Rightarrow> throw e) k) \<noteq> Hung"
  using assms by (cases title) (simp_all add: bind_io_def ret_def throw_def split: prod.splits)

lemma download_title_settles:
  assumes "cookies_getAll h (str ''wattpad.com'') \<noteq> Pending"
    and "\<And>q. fetch h q \<noteq> Pending"
    and "\<And>q r. fetch h q = Resolved r \<Longrightarrow> json r \<noteq> Pending"
    and "\<And>q r. fetch h q = Resolved r \<Longrightarrow> blob r \<noteq> Pending"
  shows "outcome (handleDownload_title h st) = Finished \<and>
         final (handleDownload_title h st) = st\<lparr>isLoading := False\<rparr>"
proof -
  have tail: "fst (bind_io (request_epub ep h st)
                (\<lambda>response. bind_io (await (blob response))
                   (\<lambda>b. bind_io (emit (CreateObjectURL b))
                      (\<lambda>_. bind_io (emit (AnchorClick (createObjectURL h b) filename))
                                (\<lambda>_. emit (RevokeObjectURL (createObjectURL h b))))))) \<noteq> Hung"
    for ep filename
  proof (rule bind_io_not_hung)
    show "fst (request_epub ep h st) \<noteq> Hung"
      using assms(1-3) by (rule request_epub_settles)
  next
    fix r t
    assume "request_epub ep h st = (Done r, t)"
    then obtain q where "fetch h q = Resolved r" using request_epub_response by blast
    with assms(4) have b: "blob r \<noteq> Pending" by blast
    show "fst (bind_io (await (blob r))
                   (\<lambda>b. bind_io (emit (CreateObjectURL b))
                      (\<lambda>_. bind_io (emit (AnchorClick (createObjectURL h b) filename))
                                (\<lambda>_. emit (RevokeObjectURL (createObjectURL h b)))))) \<noteq> Hung"
      using b by (cases "blob r") (simp_all add: io_defs)
  qed
  have settled: "catch_value (json mr) v \<noteq> Pending" if "fetch h q = Resolved mr" for mr q v
    using assms(3)[OF that] by (cases "json mr") (simp_all add: catch_value_def)
  have "fst (download_body_title h st) \<noteq> Hung"
    unfolding download_body_title_def Let_def
    apply (rule bind_io_not_hung, rule emit_not_hung)
    apply (rule bind_io_not_hung, rule await_not_hung, rule assms(2))
    apply (drule await_done)
    apply (rule bind_io_not_hung, simp add: emit_def ret_def)
    apply (rule bind_io_not_hung, rule await_not_hung, erule settled)
    apply (rule title_replace_not_hung)
    apply (rule tail)
    done
  then have "outcome (handleDownload_title h st) \<noteq> Suspended"
    by (simp add: handleDownload_title_def run_download_suspended)
  then show ?thesis
    unfolding handleDownload_title_def by (simp add: run_download_idle)
qed


lemma request_epub_ok:
  assumes "cookies_getAll h (str ''wattpad.com'') = Resolved cs"
    and "fetch h (epub_request ep st cs) = Resolved response"
    and "ok response"
  shows "request_epub ep h st =
     (Done response, [CookiesGetAll (str ''wattpad.com''), Fetch (epub_request ep st cs)])"
  using assms by (simp add: request_epub_def io_defs)

lemma request_epub_cookies_rejected:
  assumes "cookies_getAll h (str ''wattpad.com'') = Rejected e"
  shows "request_epub ep h st = (Thrown e, [CookiesGetAll (str ''wattpad.com'')])"
  using assms by (simp add: request_epub_def io_defs)

lemma story_host_facts:
  "cookies_getAll story_host d = Resolved []"
  "fetch story_host q = Resolved epub_response"
  "createObjectURL story_host b = str ''blob:1''"
  "ok epub_response" "blob epub_response = Resolved [80, 75, 3, 4]"
  "headers_get epub_response n = None"
  "storyId story_state = JStr (str ''999'')"
  by (simp_all add: story_host_def epub_response_def story_state_def initial_state_def)

text \<open>The run of the Content-Disposition file on the example host: the e-book is saved.\<close>

lemma download_disposition_example:
  "handleDownload_disposition story_host story_state =
     \<lparr>final = story_state\<lparr>isLoading := False\<rparr>,
      trace = [CookiesGetAll (str ''wattpad.com''),
               Fetch (epub_request (str ''https://crx-0-2-6-novn.shuttle.app/generate-epub'') story_state []),
               CreateObjectURL [80, 75, 3, 4],
               AnchorClick (str ''blob:1'') (str ''story-999.epub''),
               RevokeObjectURL (str ''blob:1'')],
      outcome = Finished\<rparr>"
  by (simp add: handleDownload_disposition_def run_download_cases download_body_disposition_def
        request_epub_ok[OF story_host_facts(1,2,4)] story_host_facts download_filename_def
        disposition_filename_def io_defs Let_def str_def)


subsection \<open>Claims about the download\<close>

lemmas download_defs =
  handleDownload_disposition_def handleDownload_title_def handleDownload_native_def
  handleDownload_App_def run_download_cases download_body_disposition_def
  download_body_title_def download_body_native_def request_epub_def epub_request_def
  api_error_message_def title_request_def download_filename_def disposition_filename_def
  io_defs Let_def

lemmas example_defs =
  story_host_def story_state_def initial_state_def epub_response_def quota_host_def
  quota_response_def bad_gateway_host_def cookies_denied_host_def broken_body_host_def
  offline_title_host_def









subsection \<open>Searching for a pattern that starts with literal text\<close>

lemma exec_from_skip_Lit:
  "a \<noteq> x \<Longrightarrow>
     exec_from (Seq (Lit (a # as)) re) p (x # xs) = exec_from (Seq (Lit (a # as)) re) (Suc p) xs"
  by simp

lemma exec_from_skip_LitCI:
  "\<not> ci_eq a x \<Longrightarrow>
     exec_from (Seq (LitCI (a # as)) re) p (x # xs) = exec_from (Seq (LitCI (a # as)) re) (Suc p) xs"
  by simp

lemma exec_from_try_Lit:
  "exec_from (Seq (Lit (x # as)) re) p (x # xs) =
     (case rx_run (Seq (Lit (x # as)) re) (Map.empty, p, x # xs) of
        [] \<Rightarrow> exec_from (Seq (Lit (x # as)) re) (Suc p) xs
      | (c, p', r') # _ \<Rightarrow> Some (c(0 \<mapsto> take (p' - p) (x # xs))))"
  by simp

lemma exec_from_try_LitCI:
  "ci_eq a x \<Longrightarrow>
     exec_from (Seq (LitCI (a # as)) re) p (x # xs) =
       (case rx_run (Seq (LitCI (a # as)) re) (Map.empty, p, x # xs) of
          [] \<Rightarrow> exec_from (Seq (LitCI (a # as)) re) (Suc p) xs
        | (c, p', r') # _ \<Rightarrow> Some (c(0 \<mapsto> take (p' - p) (x # xs))))"
  by simp

lemma exec_from_end:
  "exec_from (Seq (Lit (a # as)) re) p [] = None"
  "exec_from (Seq (LitCI (a # as)) re) p [] = None"
  by simp_all

lemmas search =
  exec_from_skip_Lit exec_from_skip_LitCI exec_from_try_Lit exec_from_try_LitCI exec_from_end

lemmas header_defs = plain_header_def utf8_header_def both_header_def str_def

lemma header_matches:
  "js_match plain_header utf8FilenameRegex = None"
  "match_group (js_match plain_header plainFilenameRegex) 1 = str ''abc.epub''"
  "match_group (js_match utf8_header utf8FilenameRegex) 1 = str ''a%20b.epub''"
  "match_group (js_match both_header utf8FilenameRegex) 1 = str ''a%20b.epub''"
  by (simp_all add: js_match_def utf8FilenameRegex_def plainFilenameRegex_def header_defs
        match_group_def ci_eq_def is_lower_def is_space_def search del: exec_from.simps)

lemma header_groups:
  "group_truthy (js_match plain_header plainFilenameRegex) 1"
  "group_truthy (js_match utf8_header utf8FilenameRegex) 1"
  "group_truthy (js_match both_header utf8FilenameRegex) 1"
  by (simp_all add: js_match_def utf8FilenameRegex_def plainFilenameRegex_def header_defs
        group_truthy_def ci_eq_def is_lower_def is_space_def search del: exec_from.simps)

lemma group_truthy_None: "group_truthy None i = False"
  by (simp add: group_truthy_def)

lemma decode_example: "decodeURIComponent (str ''a%20b.epub'') = Some (str ''a b.epub'')"
  by (simp add: decodeURIComponent.simps decode_at_def str_def)

lemma headers_not_empty:
  "plain_header \<noteq> []" "utf8_header \<noteq> []" "both_header \<noteq> []"
  "str ''abc.epub'' \<noteq> []" "str ''a b.epub'' \<noteq> []"
  by (simp_all add: header_defs)

text \<open>
  C7. In the file that reads Content-Disposition: the header
  \<^verbatim>\<open>attachment; filename="abc.epub"\<close> gives the file name \<open>abc.epub\<close>; the header
  \<^verbatim>\<open>filename*=UTF-8''a%20b.epub\<close> gives \<open>a b.epub\<close>; and a header with both forms gives the
  percent-decoded \<open>filename*\<close> one, which is tried first. The name the download is saved
  under is that file name.
\<close>

theorem content_disposition_filenames:
  "disposition_filename (Some plain_header) = Some (str ''abc.epub'') \<and>
   disposition_filename (Some utf8_header) = Some (str ''a b.epub'') \<and>
   disposition_filename (Some both_header) = Some (str ''a b.epub'') \<and>
   download_filename h st (with_disposition response plain_header) = str ''abc.epub'' \<and>
   download_filename h st (with_disposition response utf8_header) = str ''a b.epub''"
proof -
  have plain: "disposition_filename (Some plain_header) = Some (str ''abc.epub'')"
    unfolding disposition_filename_def
    by (simp add: Let_def headers_not_empty header_matches header_groups group_truthy_None
          del: One_nat_def)
  have star: "disposition_filename (Some utf8_header) = Some (str ''a b.epub'')"
    unfolding disposition_filename_def
    by (simp add: Let_def headers_not_empty header_matches header_groups decode_example
          del: One_nat_def)
  have both: "disposition_filename (Some both_header) = Some (str ''a b.epub'')"
    unfolding disposition_filename_def
    by (simp add: Let_def headers_not_empty header_matches header_groups decode_example
          del: One_nat_def)
  show ?thesis
    by (simp add: download_filename_def with_disposition_def plain star both headers_not_empty)
qed

text \<open>
  C8. A click on the download button while \<open>isLoading\<close> is true is a no-op: the button is
  rendered disabled, \<open>handleDownload\<close> does not run, the state is unchanged and nothing
  is requested. This holds in every file.
\<close>

theorem click_while_loading_is_noop:
  assumes "isLoading st"
  shows "click_download (render True st) handleDownload_disposition h st
           = \<lparr>final = st, trace = [], outcome = Finished\<rparr> \<and>
         click_download (render True st) handleDownload_title h st
           = \<lparr>final = st, trace = [], outcome = Finished\<rparr> \<and>
         click_download (render False st) (handleDownload_native apiEndpoint) h st
           = \<lparr>final = st, trace = [], outcome = Finished\<rparr> \<and>
         click_download (render False st) handleDownload_App h st
           = \<lparr>final = st, trace = [], outcome = Finished\<rparr>"
  using assms
  by (simp add: click_download_def render_def split: option.splits bool.splits)

theorem click_while_loading_is_noop_witness:
  "click_download (render True (story_state\<lparr>isLoading := True\<rparr>)) handleDownload_disposition
      story_host (story_state\<lparr>isLoading := True\<rparr>)
     = \<lparr>final = story_state\<lparr>isLoading := True\<rparr>, trace = [], outcome = Finished\<rparr> \<and>
   click_download (render False (story_state\<lparr>isLoading := True\<rparr>)) handleDownload_App
      story_host (story_state\<lparr>isLoading := True\<rparr>)
     = \<lparr>final = story_state\<lparr>isLoading := True\<rparr>, trace = [], outcome = Finished\<rparr>"
proof -
  have "isLoading (story_state\<lparr>isLoading := True\<rparr>)" by simp
  from click_while_loading_is_noop[OF this, of story_host]
  show ?thesis by simp
qed

text \<open>
  The guard is the disabled button alone: the same click while idle runs the handler, and
  the handler does not look at \<open>isLoading\<close>.
\<close>

lemma click_while_idle_runs:
  assumes "isValidPage st = Some True" and "\<not> isLoading st"
  shows "click_download (render locks st) handler h st = handler h st"
  using assms by (simp add: click_download_def render_def)

lemma body_ignores_isLoading:
  "download_body_disposition h (st\<lparr>isLoading := b\<rparr>) = download_body_disposition h st"
  "download_body_title h (st\<lparr>isLoading := b\<rparr>) = download_body_title h st"
  "download_body_native apiEndpoint h (st\<lparr>isLoading := b\<rparr>) = download_body_native apiEndpoint h st"
  by (simp_all add: download_body_disposition_def download_body_title_def download_body_native_def
        request_epub_def epub_request_def title_request_def download_filename_def
        cong: option.case_cong if_cong)

lemma run_download_trace:
  "body h st' = body h st \<Longrightarrow> trace (run_download body h st') = trace (run_download body h st)"
  by (simp add: run_download_cases split: prod.splits res.splits)

lemma handleDownload_has_no_guard:
  "trace (handleDownload_disposition h (st\<lparr>isLoading := b\<rparr>)) = trace (handleDownload_disposition h st)"
  "trace (handleDownload_title h (st\<lparr>isLoading := b\<rparr>)) = trace (handleDownload_title h st)"
  "trace (handleDownload_native apiEndpoint h (st\<lparr>isLoading := b\<rparr>))
     = trace (handleDownload_native apiEndpoint h st)"
  unfolding handleDownload_disposition_def handleDownload_title_def handleDownload_native_def
  by (rule run_download_trace, rule body_ignores_isLoading)+

text \<open>
  C9, at the input where the code departs from it. The title lookup rejects (the network
  is down for it) while the backend would answer: the download stops at the lookup, logs
  the failure and alerts; no request reaches the backend and nothing is saved.
\<close>

theorem title_lookup_rejection_aborts:
  "handleDownload_title offline_title_host story_state =
     \<lparr>final = story_state\<lparr>isLoading := False\<rparr>,
      trace = [Fetch (Get (str ''https://www.wattpad.com/api/v3/stories/999?fields=title'') []),
               Console Err [LStr (str ''Download failed:''),
                            LErr (TypeError (str ''Failed to fetch''))],
               Alert (str ''An error occurred during the download.'')],
      outcome = Finished\<rparr>"
  by (simp add: download_defs example_defs download_failed_alert_def str_def)

text \<open>Whatever the host, a title lookup that rejects ends the download before the POST.\<close>

lemma title_lookup_rejected:
  assumes "fetch h (title_request h st) = Rejected e"
  shows "handleDownload_title h st =
     \<lparr>final = st\<lparr>isLoading := False\<rparr>,
      trace = [Fetch (title_request h st),
               Console Err [LStr (str ''Download failed:''), LErr e],
               Alert download_failed_alert],
      outcome = Finished\<rparr>"
  using assms
  by (simp add: handleDownload_title_def run_download_cases download_body_title_def io_defs Let_def)

text \<open>
  The failures the code does recover from: a status that is not a success, or a body that
  is not JSON, with no usable title in it. The download goes on and saves under the
  id-based name.
\<close>

lemma title_lookup_unusable_falls_back:
  assumes "fetch h (title_request h st) = Resolved metaResponse"
    and "json metaResponse = Rejected e \<or>
         (\<exists>metaData. json metaResponse = Resolved metaData \<and> get_prop metaData (str ''title'') = None)"
    and "cookies_getAll h (str ''wattpad.com'') = Resolved cs"
    and "fetch h (epub_request (str ''https://modest-chebyshev-za7x.shuttle.app/generate-epub'') st cs)
           = Resolved response"
    and "ok response" and "blob response = Resolved b"
  shows "AnchorClick (createObjectURL h b) (sanitized_fallback h st)
           \<in> set (trace (handleDownload_title h st)) \<and>
         outcome (handleDownload_title h st) = Finished"
  using assms(1,2,6)
  by (auto simp: handleDownload_title_def run_download_cases download_body_title_def
        request_epub_ok[OF assms(3-5)] sanitized_fallback_def io_defs Let_def)

end
